theory Spec2Isabelle
  imports Main
begin

section \<open>Platform values\<close>

text \<open>
  A JavaScript number, as far as the client uses one: an integer or \<open>NaN\<close>.
  Times are milliseconds since the epoch, as \<open>Date.now()\<close> returns them.
  Fractions and infinities are outside the model.
\<close>

datatype jsnum = NaN | Fin int

fun js_gt :: "jsnum \<Rightarrow> jsnum \<Rightarrow> bool" where
  "js_gt (Fin a) (Fin b) = (a > b)"
| "js_gt _ _ = False"

fun js_sub :: "jsnum \<Rightarrow> jsnum \<Rightarrow> jsnum" where
  "js_sub (Fin a) (Fin b) = Fin (a - b)"
| "js_sub _ _ = NaN"

text \<open>\<open>new Date(ms)\<close>, read back by \<open>getTime()\<close>: a time value beyond
  8.64e15 ms on either side of the epoch makes an invalid date, whose time is \<open>NaN\<close>.\<close>

definition new_Date :: "int \<Rightarrow> jsnum" where
  "new_Date ms = (if \<bar>ms\<bar> \<le> 8640000000000000 then Fin ms else NaN)"

text \<open>Truthiness of an optional string: \<open>undefined\<close>, \<open>null\<close> and \<open>""\<close> are falsy.\<close>

fun truthy :: "string option \<Rightarrow> bool" where
  "truthy None = False"
| "truthy (Some s) = (s \<noteq> [])"

text \<open>A template literal prints an absent value as the text \<open>undefined\<close>.\<close>

fun template :: "string option \<Rightarrow> string" where
  "template None = ''undefined''"
| "template (Some s) = s"

datatype error = Error string | TypeError string | SyntaxError string
  | StatusError nat string

section \<open>Requests, responses and the world\<close>

text \<open>
  A query value is kept as the string or number it was built from; a URL is its origin, its
  path and its query parameters in order. \<open>new URL(input, base)\<close> is modelled for the
  inputs the client passes: a URL object, or a relative endpoint such as \<open>api/info\<close>
  resolved against a base that has no path.
\<close>

datatype pval = PStr string | PNum int

record url =
  origin :: string
  pathname :: string
  search :: "(string \<times> pval) list"

datatype input = Path string | Url url

fun new_URL :: "input \<Rightarrow> string \<Rightarrow> url" where
  "new_URL (Url u) base = u"
| "new_URL (Path p) base = \<lparr>origin = base, pathname = ''/'' @ p, search = []\<rparr>"

text \<open>\<open>URLSearchParams.set\<close>: the first entry of the key takes the value, later entries of
  the key are removed, a new key is appended.\<close>

fun sp_set :: "string \<Rightarrow> pval \<Rightarrow> (string \<times> pval) list \<Rightarrow> (string \<times> pval) list" where
  "sp_set k v [] = [(k, v)]"
| "sp_set k v (p # ps) =
     (if fst p = k then (k, v) # filter (\<lambda>q. fst q \<noteq> k) ps else p # sp_set k v ps)"

text \<open>
  A header value: plain text, or \<open>Basic\<close> followed by the base64 of the text (the
  encoding itself is not modelled). Setting a key of an object literal keeps the key's place
  when it is already there.
\<close>

datatype hval = Plain string | Basic string

fun set_key :: "string \<Rightarrow> 'v \<Rightarrow> (string \<times> 'v) list \<Rightarrow> (string \<times> 'v) list" where
  "set_key k v [] = [(k, v)]"
| "set_key k v (p # ps) = (if fst p = k then (k, v) # ps else p # set_key k v ps)"

record RequestInit =
  http_method :: "string option"
  headers :: "(string \<times> hval) list"
  body :: "(string \<times> string) list option"

definition no_init :: RequestInit where
  "no_init = \<lparr>http_method = None, headers = [], body = None\<rparr>"

record request =
  req_url :: url
  req_init :: RequestInit

text \<open>
  A rate-limit header of a response is absent, or present with a text. The text itself is
  not modelled: a header that is present is kept as the number that \<open>Number\<close> reads
  from its text and the number that \<open>parseInt\<close> reads from it, each \<open>NaN\<close> when
  that function finds no number there (the two differ on texts such as \<open>12abc\<close> and
  the empty text). \<open>Number(null)\<close> is 0 and \<open>parseInt(null)\<close> is \<open>NaN\<close>.
\<close>

datatype hdr = NoHeader | Header jsnum jsnum

fun Number :: "hdr \<Rightarrow> jsnum" where
  "Number NoHeader = Fin 0"
| "Number (Header n p) = n"

fun parseInt :: "hdr \<Rightarrow> jsnum" where
  "parseInt NoHeader = NaN"
| "parseInt (Header n p) = p"

text \<open>A header whose text is the decimal numeral of an integer.\<close>

definition numeral_header :: "int \<Rightarrow> hdr" where
  "numeral_header n = Header (Fin n) (Fin n)"

text \<open>The token endpoint's success body.\<close>

record OauthTokenResponseBody =
  access_token :: string
  token_type :: string
  expires_in :: int
  scope :: string
  refresh_token :: "string option"

text \<open>
  A response body: text that is not JSON, a listing (the \<open>data\<close> of its children in
  order and its \<open>after\<close> cursor), a token grant, or an object with an \<open>error\<close> key.
\<close>

datatype 'a json =
    Not_json
  | Listing_body "'a list" "string option"
  | Token_body OauthTokenResponseBody
  | Error_body string

record 'a response =
  ok :: bool
  status :: nat
  statusText :: string
  x_ratelimit_remaining :: hdr
  x_ratelimit_reset :: hdr
  payload :: "'a json"

datatype 'a reply = NetworkError | Response "'a response"

text \<open>
  The world holds the clock and the exchanges made so far, each with the time its request
  was sent. The server is a function of that history, the time and the request; it answers
  with a reply and the time the exchange takes.
\<close>

record 'a exchange =
  sent_at :: int
  sent :: request
  got :: "'a reply"

record 'a world =
  now :: int
  trace :: "'a exchange list"

type_synonym 'a server = "'a exchange list \<Rightarrow> int \<Rightarrow> request \<Rightarrow> 'a reply \<times> nat"

definition net_fetch :: "'a server \<Rightarrow> request \<Rightarrow> 'a world \<Rightarrow> 'a reply \<times> 'a world" where
  "net_fetch srv rq w =
     (case srv (trace w) (now w) rq of
        (rp, latency) \<Rightarrow>
          (rp, \<lparr>now = now w + int latency,
                trace = trace w @ [\<lparr>sent_at = now w, sent = rq, got = rp\<rparr>]\<rparr>))"

text \<open>\<open>await new Promise(resolve => setTimeout(resolve, delay))\<close>: the clock advances by
  the delay; a delay that is negative or \<open>NaN\<close> resolves at once. The timer keeps its
  delay in 32 bits: a delay of more than 2147483647 ms is replaced by 1 ms.\<close>

definition TIMEOUT_MAX :: int where
  "TIMEOUT_MAX = 2147483647"

fun setTimeout :: "jsnum \<Rightarrow> 'a world \<Rightarrow> 'a world" where
  "setTimeout NaN w = w"
| "setTimeout (Fin d) w = w\<lparr>now := now w + (if d > TIMEOUT_MAX then 1 else max 0 d)\<rparr>"

section \<open>The event emitter\<close>

text \<open>
  \<open>EventEmitter.emit\<close> of \<open>node:events\<close>: an \<open>error\<close> event with no listener
  is thrown at the emitting call; with a listener it is handed to the listener and
  \<open>emit\<close> returns. Any other event without a listener is dropped. Listeners only
  observe: the events they received are recorded.
\<close>

record BetterToken =
  access :: "string option"
  refresh :: "string option"
  expiry :: "jsnum option"
  scopes :: "string list option"

datatype event = ErrorEvent error | TokenRefreshed BetterToken

record rateLimit_t =
  reqRemaining :: jsnum
  resetMs :: jsnum

record RedditAnon =
  userAgent :: string
  baseUrl :: string
  rateLimit :: rateLimit_t
  errorListener :: bool
  tokenListener :: bool
  received :: "event list"

fun emit :: "event \<Rightarrow> 's RedditAnon_scheme \<Rightarrow> error + 's RedditAnon_scheme" where
  "emit (ErrorEvent e) s =
     (if errorListener s then Inr (s\<lparr>received := received s @ [ErrorEvent e]\<rparr>) else Inl e)"
| "emit (TokenRefreshed t) s =
     Inr (if tokenListener s then s\<lparr>received := received s @ [TokenRefreshed t]\<rparr> else s)"

section \<open>The anonymous session\<close>

text \<open>
  The outcome of a call is what it returns or throws, together with the session and the world
  as the call left them: a throw does not undo the writes before it.
  Console output is not modelled.
\<close>

type_synonym ('r, 's, 'a) outcome = "(error + 'r) \<times> 's \<times> 'a world"

definition version :: string where
  "version = ''0.0.2''"

definition new_RedditAnon :: "string option \<Rightarrow> int \<Rightarrow> RedditAnon" where
  "new_RedditAnon ua t =
     \<lparr>userAgent = (case ua of None \<Rightarrow> ''Snooland '' @ version | Some u \<Rightarrow> u),
      baseUrl = ''https://www.reddit.com'',
      rateLimit = \<lparr>reqRemaining = Fin 60, resetMs = Fin (t + 60000)\<rparr>,
      errorListener = False, tokenListener = False, received = []\<rparr>"

text \<open>The request \<open>RedditAnon.fetch\<close> builds: \<open>.json\<close> on the path,
  \<open>raw_json=1\<close> in the query, the caller's options with the user agent set.\<close>

definition api_request :: "input \<Rightarrow> RequestInit \<Rightarrow> 's RedditAnon_scheme \<Rightarrow> request" where
  "api_request inp opts s =
     (let u = new_URL inp (baseUrl s);
          u1 = u\<lparr>pathname := pathname u @ ''.json''\<rparr>;
          u2 = u1\<lparr>search := sp_set ''raw_json'' (PStr ''1'') (search u1)\<rparr>
      in \<lparr>req_url = u2,
          req_init = opts\<lparr>headers := set_key ''User-Agent'' (Plain (userAgent s)) (headers opts)\<rparr>\<rparr>)"

text \<open>The wait at the head of \<open>RedditAnon.fetch\<close>.\<close>

definition rate_gate :: "'s RedditAnon_scheme \<Rightarrow> 'a world \<Rightarrow> 'a world" where
  "rate_gate s w =
     (if reqRemaining (rateLimit s) = Fin 0
      then setTimeout (js_sub (resetMs (rateLimit s)) (Fin (now w))) w
      else w)"

definition RedditAnon_fetch ::
  "'a server \<Rightarrow> input \<Rightarrow> RequestInit \<Rightarrow> 's RedditAnon_scheme \<Rightarrow> 'a world
     \<Rightarrow> ('a json, 's RedditAnon_scheme, 'a) outcome" where
  "RedditAnon_fetch srv inp opts s w =
     (case net_fetch srv (api_request inp opts s) (rate_gate s w) of
        (NetworkError, w2) \<Rightarrow> (Inl (TypeError ''fetch failed''), s, w2)
      | (Response res, w2) \<Rightarrow>
          (case (if \<not> ok res then emit (ErrorEvent (Error (statusText res))) s else Inr s) of
             Inl e \<Rightarrow> (Inl e, s, w2)
           | Inr s1 \<Rightarrow>
               (let s2 = s1\<lparr>rateLimit :=
                           \<lparr>reqRemaining = Number (x_ratelimit_remaining res),
                            resetMs = Number (x_ratelimit_reset res)\<rparr>\<rparr>
                in case payload res of
                     Not_json \<Rightarrow> (Inl (SyntaxError ''Unexpected token''), s2, w2)
                   | j \<Rightarrow> (Inr j, s2, w2))))"

text \<open>
  Listing parameters: the numeric \<open>limit\<close> and the other query parameters. The loop of
  \<open>paginate\<close> runs the session's own \<open>fetch\<close> (the subclass overrides it), so the
  fetch is a parameter. The callback is a function on a state of the caller's.
\<close>

record params =
  limit :: "int option"
  others :: "(string \<times> string) list"

definition URLSearchParams :: "params option \<Rightarrow> (string \<times> pval) list" where
  "URLSearchParams ps =
     (case ps of
        None \<Rightarrow> []
      | Some p \<Rightarrow> map (\<lambda>(k, v). (k, PStr v)) (others p)
                  @ (case limit p of None \<Rightarrow> [] | Some n \<Rightarrow> [(''limit'', PNum n)]))"

definition initial_limit :: "params option \<Rightarrow> int" where
  "initial_limit ps =
     (case ps of
        None \<Rightarrow> 100
      | Some p \<Rightarrow> (case limit p of None \<Rightarrow> 100 | Some n \<Rightarrow> if n = 0 then 100 else n))"

type_synonym ('s, 'a) fetcher =
  "input \<Rightarrow> RequestInit \<Rightarrow> 's \<Rightarrow> 'a world \<Rightarrow> ('a json, 's, 'a) outcome"

function paginate_loop ::
  "('s, 'a) fetcher \<Rightarrow> ('a list \<Rightarrow> 'c \<Rightarrow> 'c) option \<Rightarrow> url \<Rightarrow> int \<Rightarrow> 'a list \<Rightarrow> 'c
     \<Rightarrow> 's \<Rightarrow> 'a world \<Rightarrow> ('a list, 'c \<times> 's, 'a) outcome" where
  "paginate_loop fetch callback u lim items c s w =
     (case fetch (Url u) no_init s w of
        (Inl e, s1, w1) \<Rightarrow> (Inl e, (c, s1), w1)
      | (Inr (Listing_body newItems after), s1, w1) \<Rightarrow>
          (let items1 = items @ newItems;
               c1 = (case callback of None \<Rightarrow> c | Some f \<Rightarrow> f newItems c)
           in if \<not> truthy after then (Inr items1, (c1, s1), w1)
              else if lim - 100 > 0
                then paginate_loop fetch callback
                       (u\<lparr>search := sp_set ''after'' (PStr (template after)) (search u)\<rparr>)
                       (lim - 100) items1 c1 s1 w1
                else (Inr items1, (c1, s1), w1))
      | (Inr _, s1, w1) \<Rightarrow>
          (Inl (TypeError ''Cannot read properties of undefined''), (c, s1), w1))"
  by pat_completeness auto
termination
  by (relation "measure (\<lambda>(fetch, callback, u, lim, items, c, s, w). nat lim)") auto

declare paginate_loop.simps [simp del]

definition paginate ::
  "('s RedditAnon_scheme, 'a) fetcher \<Rightarrow> input \<Rightarrow> params option
     \<Rightarrow> ('a list \<Rightarrow> 'c \<Rightarrow> 'c) option \<Rightarrow> 'c \<Rightarrow> 's RedditAnon_scheme \<Rightarrow> 'a world
     \<Rightarrow> ('a list, 'c \<times> 's RedditAnon_scheme, 'a) outcome" where
  "paginate fetch endpoint ps callback c s w =
     paginate_loop fetch callback
       ((new_URL endpoint (baseUrl s))\<lparr>search := URLSearchParams ps\<rparr>)
       (initial_limit ps) [] c s w"

subsection \<open>Reading a traversal off the trace\<close>

text \<open>The listing page an exchange delivered, and the cursor a request carries.\<close>

definition page_of :: "'a exchange \<Rightarrow> ('a list \<times> string option) option" where
  "page_of x =
     (case got x of
        Response res \<Rightarrow>
          (case payload res of Listing_body xs a \<Rightarrow> Some (xs, a) | _ \<Rightarrow> None)
      | NetworkError \<Rightarrow> None)"

definition items_of :: "'a exchange \<Rightarrow> 'a list" where
  "items_of x = (case page_of x of Some (xs, a) \<Rightarrow> xs | None \<Rightarrow> [])"

definition cursor_of :: "request \<Rightarrow> pval option" where
  "cursor_of rq = map_of (search (req_url rq)) ''after''"

text \<open>The exchanges a call added to the trace.\<close>

definition added :: "'a world \<Rightarrow> 'a world \<Rightarrow> 'a exchange list" where
  "added w w' = drop (length (trace w)) (trace w')"

text \<open>
  The stopping rule of the loop, read off the exchanges of one traversal: the counter starts
  at the limit and loses 100 for each page, whatever the page holds. The traversal goes on
  after a page exactly when the page's \<open>after\<close> is truthy and the counter is still positive
  after the subtraction; the next request then carries that \<open>after\<close> as its cursor.
\<close>

fun walked :: "int \<Rightarrow> 'a exchange list \<Rightarrow> bool" where
  "walked lim [] = False"
| "walked lim [x] =
     (case page_of x of
        None \<Rightarrow> False
      | Some (xs, a) \<Rightarrow> \<not> truthy a \<or> lim - 100 \<le> 0)"
| "walked lim (x # y # rest) =
     (case page_of x of
        None \<Rightarrow> False
      | Some (xs, a) \<Rightarrow>
          truthy a \<and> lim - 100 > 0 \<and> cursor_of (sent y) = Some (PStr (template a))
          \<and> walked (lim - 100) (y # rest))"

text \<open>
  The stopping rule in the specification's words: the traversal stops after a page exactly
  when the page's \<open>after\<close> is null or the number of items accumulated so far has reached
  the item limit.
\<close>

fun walked_by_count :: "int \<Rightarrow> nat \<Rightarrow> 'a exchange list \<Rightarrow> bool" where
  "walked_by_count itemLimit n [] = False"
| "walked_by_count itemLimit n [x] =
     (case page_of x of
        None \<Rightarrow> False
      | Some (xs, a) \<Rightarrow> a = None \<or> itemLimit \<le> int (n + length xs))"
| "walked_by_count itemLimit n (x # y # rest) =
     (case page_of x of
        None \<Rightarrow> False
      | Some (xs, a) \<Rightarrow>
          a \<noteq> None \<and> int (n + length xs) < itemLimit
          \<and> cursor_of (sent y) = Some (PStr (template a))
          \<and> walked_by_count itemLimit (n + length xs) (y # rest))"

subsection \<open>A mock listing endpoint\<close>

text \<open>Three pages of 100, 100 and 40 items, chained by their cursors; every exchange takes
  50 ms and reports a budget of 59 requests.\<close>

definition listing_reply :: "'a list \<Rightarrow> string option \<Rightarrow> 'a reply" where
  "listing_reply xs a =
     Response \<lparr>ok = True, status = 200, statusText = ''OK'',
               x_ratelimit_remaining = numeral_header 59, x_ratelimit_reset = numeral_header 300,
               payload = Listing_body xs a\<rparr>"

definition page1 :: "nat list" where "page1 = [0..<100]"
definition page2 :: "nat list" where "page2 = [100..<200]"
definition page3 :: "nat list" where "page3 = [200..<240]"

definition mock :: "nat server" where
  "mock history t rq =
     (case cursor_of rq of
        None \<Rightarrow> (listing_reply page1 (Some ''t3_a''), 50)
      | Some c \<Rightarrow>
          if c = PStr ''t3_a'' then (listing_reply page2 (Some ''t3_b''), 50)
          else if c = PStr ''t3_b'' then (listing_reply page3 None, 50)
          else (listing_reply [] None, 50))"

text \<open>Pages of 40 items, chained the same way.\<close>

definition short1 :: "nat list" where "short1 = [0..<40]"
definition short2 :: "nat list" where "short2 = [40..<80]"
definition short3 :: "nat list" where "short3 = [80..<120]"

definition mock_short :: "nat server" where
  "mock_short history t rq =
     (case cursor_of rq of
        None \<Rightarrow> (listing_reply short1 (Some ''t3_a''), 50)
      | Some c \<Rightarrow>
          if c = PStr ''t3_a'' then (listing_reply short2 (Some ''t3_b''), 50)
          else if c = PStr ''t3_b'' then (listing_reply short3 None, 50)
          else (listing_reply [] None, 50))"

definition anon0 :: RedditAnon where
  "anon0 = new_RedditAnon None 1000"

definition w0 :: "nat world" where
  "w0 = \<lparr>now = 1000, trace = []\<rparr>"

definition hot :: input where
  "hot = Path ''r/deno/hot''"

definition with_limit :: "int \<Rightarrow> params option" where
  "with_limit n = Some \<lparr>limit = Some n, others = []\<rparr>"

section \<open>The authenticated session\<close>

datatype appType_t = Script | Web

record RedditOauth = RedditAnon +
  id' :: "string option"
  secret :: "string option"
  username :: "string option"
  password :: "string option"
  appType :: "appType_t option"
  token :: BetterToken

text \<open>
  The options of \<open>Reddit.create\<close>. A key of the object is absent, or given with a value
  that may be \<open>undefined\<close>; \<open>Object.keys\<close> counts the keys that are given.
\<close>

datatype 'a member = Absent | Given "'a option"

fun val :: "'a member \<Rightarrow> 'a option" where
  "val Absent = None"
| "val (Given v) = v"

fun given :: "'a member \<Rightarrow> nat" where
  "given Absent = 0"
| "given (Given v) = 1"

record RedditInit =
  opt_clientId :: "string member"
  opt_clientSecret :: "string member"
  opt_username :: "string member"
  opt_password :: "string member"
  opt_refreshToken :: "string member"
  opt_accessToken :: "string member"
  opt_tokenExpiry :: "jsnum member"
  opt_userAgent :: "string member"

definition keys_length :: "RedditInit \<Rightarrow> nat" where
  "keys_length options =
     given (opt_clientId options) + given (opt_clientSecret options)
     + given (opt_username options) + given (opt_password options)
     + given (opt_refreshToken options) + given (opt_accessToken options)
     + given (opt_tokenExpiry options) + given (opt_userAgent options)"

definition new_RedditOauth :: "RedditInit \<Rightarrow> int \<Rightarrow> RedditOauth" where
  "new_RedditOauth options t =
     \<lparr>userAgent = userAgent (new_RedditAnon (val (opt_userAgent options)) t),
      baseUrl = ''https://oauth.reddit.com'',
      rateLimit = rateLimit (new_RedditAnon (val (opt_userAgent options)) t),
      errorListener = False, tokenListener = False, received = [],
      id' = val (opt_clientId options),
      secret = val (opt_clientSecret options),
      username = val (opt_username options),
      password = val (opt_password options),
      appType = (if truthy (val (opt_password options)) then Some Script
                 else if truthy (val (opt_refreshToken options)) then Some Web
                 else None),
      token = \<lparr>access = val (opt_accessToken options),
               refresh = val (opt_refreshToken options),
               expiry = val (opt_tokenExpiry options),
               scopes = None\<rparr>\<rparr>"

definition setToken :: "BetterToken \<Rightarrow> 's RedditOauth_scheme \<Rightarrow> 's RedditOauth_scheme" where
  "setToken t s = s\<lparr>token := t\<rparr>"

text \<open>Registering a listener for the \<open>error\<close> event.\<close>

definition on_error :: "'s RedditAnon_scheme \<Rightarrow> 's RedditAnon_scheme" where
  "on_error s = s\<lparr>errorListener := True\<rparr>"

text \<open>The request of a grant: a form posted to the token endpoint with the client's
  identifier and secret as basic credentials.\<close>

definition token_request :: "string \<Rightarrow> (string \<times> string) list \<Rightarrow> request" where
  "token_request credentials form =
     \<lparr>req_url = \<lparr>origin = ''https://www.reddit.com'', pathname = ''/api/v1/access_token'',
                  search = []\<rparr>,
      req_init = \<lparr>http_method = Some ''POST'',
                   headers = [(''Content-Type'', Plain ''application/x-www-form-urlencoded''),
                              (''Authorization'', Basic credentials)],
                   body = Some form\<rparr>\<rparr>"

text \<open>What the fields of a grant body read as: a body without them gives \<open>undefined\<close>
  for the access token and an invalid date for the expiry. The expiry of a grant is
  \<open>new Date(Date.now() + json.expires_in * 1000)\<close>.\<close>

fun access_of :: "'a json \<Rightarrow> string option" where
  "access_of (Token_body b) = Some (access_token b)"
| "access_of _ = None"

fun refresh_of :: "'a json \<Rightarrow> string option" where
  "refresh_of (Token_body b) = refresh_token b"
| "refresh_of _ = None"

fun expiry_of :: "'a json \<Rightarrow> int \<Rightarrow> jsnum" where
  "expiry_of (Token_body b) t = new_Date (t + expires_in b * 1000)"
| "expiry_of _ t = NaN"

text \<open>The test \<open>"error" in json\<close>, with the value of the field.\<close>

fun error_in :: "'a json \<Rightarrow> string option" where
  "error_in (Error_body err) = Some err"
| "error_in _ = None"

text \<open>What \<open>getNewToken\<close> returns: the result of \<open>emit\<close>, the grant body, or nothing.\<close>

datatype 'a granted = Emitted bool | Body "'a json" | Nothing

definition emit_error ::
  "string \<Rightarrow> 's RedditAnon_scheme \<Rightarrow> 'a world \<Rightarrow> ('a granted, 's RedditAnon_scheme, 'a) outcome" where
  "emit_error msg s w =
     (case emit (ErrorEvent (Error msg)) s of
        Inl e \<Rightarrow> (Inl e, s, w)
      | Inr s1 \<Rightarrow> (Inr (Emitted True), s1, w))"

definition getNewToken ::
  "'a server \<Rightarrow> 's RedditOauth_scheme \<Rightarrow> 'a world
     \<Rightarrow> ('a granted, 's RedditOauth_scheme, 'a) outcome" where
  "getNewToken srv s w =
     (case appType s of
        Some Web \<Rightarrow>
          if \<not> truthy (refresh (token s))
          then emit_error ''Access token expired; excpected a refresh token.'' s w
          else
            (case net_fetch srv
                    (token_request (template (id' s) @ '':'' @ template (secret s))
                       [(''grant_type'', ''refresh_token''),
                        (''refresh_token'', template (refresh (token s)))]) w of
               (NetworkError, w1) \<Rightarrow> (Inl (TypeError ''fetch failed''), s, w1)
             | (Response res, w1) \<Rightarrow>
                 (let j = payload res
                  in if j = Not_json then (Inl (SyntaxError ''Unexpected token''), s, w1)
                     else case error_in j of
                       Some err \<Rightarrow> emit_error err s w1
                     | None \<Rightarrow>
                         (let s1 = setToken \<lparr>access = access_of j, refresh = refresh (token s),
                                    expiry = Some (expiry_of j (now w1)), scopes = None\<rparr> s
                          in case emit (TokenRefreshed (token s1)) s1 of
                               Inl e \<Rightarrow> (Inl e, s1, w1)
                             | Inr s2 \<Rightarrow> (Inr (Body j), s2, w1))))
      | Some Script \<Rightarrow>
          if \<not> truthy (username s) \<or> \<not> truthy (password s)
          then (Inl (Error ''Username and password are required for script apps''), s, w)
          else
            (case net_fetch srv
                    (token_request (template (id' s) @ '':'' @ template (secret s))
                       [(''grant_type'', ''password''),
                        (''username'', template (username s)),
                        (''password'', template (password s))]) w of
               (NetworkError, w1) \<Rightarrow> (Inl (TypeError ''fetch failed''), s, w1)
             | (Response res, w1) \<Rightarrow>
                 (let j = payload res
                  in if j = Not_json then (Inl (SyntaxError ''Unexpected token''), s, w1)
                     else case error_in j of
                       Some err \<Rightarrow> emit_error err s w1
                     | None \<Rightarrow>
                         (Inr (Body j),
                          setToken \<lparr>access = access_of j, refresh = None,
                                    expiry = Some (expiry_of j (now w1)), scopes = None\<rparr> s,
                          w1)))
      | None \<Rightarrow> (Inr Nothing, s, w))"

text \<open>The test at the head of \<open>RedditOauth.fetch\<close>: the token has no expiry, or the
  clock is past it.\<close>

definition token_stale :: "'s RedditOauth_scheme \<Rightarrow> 'a world \<Rightarrow> bool" where
  "token_stale s w =
     (case expiry (token s) of None \<Rightarrow> True | Some e \<Rightarrow> js_gt (Fin (now w)) e)"

definition bearer :: "string option \<Rightarrow> RequestInit \<Rightarrow> RequestInit" where
  "bearer a opts =
     opts\<lparr>headers := set_key ''Authorization'' (Plain (''bearer '' @ template a)) (headers opts)\<rparr>"

definition RedditOauth_fetch ::
  "'a server \<Rightarrow> input \<Rightarrow> RequestInit \<Rightarrow> 's RedditOauth_scheme \<Rightarrow> 'a world
     \<Rightarrow> ('a json, 's RedditOauth_scheme, 'a) outcome" where
  "RedditOauth_fetch srv inp opts s w =
     (case (if token_stale s w then getNewToken srv s w else (Inr Nothing, s, w)) of
        (Inl e, s1, w1) \<Rightarrow> (Inl e, s1, w1)
      | (Inr g, s1, w1) \<Rightarrow>
          RedditAnon_fetch srv inp (bearer (access (token s1)) opts) s1 w1)"

section \<open>The factory\<close>

datatype session = Anon RedditAnon | Oauth RedditOauth

definition Reddit_create :: "RedditInit option \<Rightarrow> int \<Rightarrow> error + session" where
  "Reddit_create options t =
     (case options of
        None \<Rightarrow> Inr (Anon (new_RedditAnon None t))
      | Some opts \<Rightarrow>
          if keys_length opts = 1 \<and> truthy (val (opt_userAgent opts))
          then Inr (Anon (new_RedditAnon (val (opt_userAgent opts)) t))
          else if truthy (val (opt_clientId opts)) \<and> truthy (val (opt_clientSecret opts))
          then (if truthy (val (opt_username opts)) \<and> truthy (val (opt_password opts))
                then Inr (Oauth (new_RedditOauth opts t))
                else if truthy (val (opt_refreshToken opts))
                then Inr (Oauth (new_RedditOauth opts t))
                else Inl (TypeError ''Missing credentials.''))
          else if truthy (val (opt_accessToken opts))
          then Inr (Oauth (new_RedditOauth opts t))
          else Inl (TypeError ''Missing credentials.''))"

definition no_options :: RedditInit where
  "no_options =
     \<lparr>opt_clientId = Absent, opt_clientSecret = Absent, opt_username = Absent,
      opt_password = Absent, opt_refreshToken = Absent, opt_accessToken = Absent,
      opt_tokenExpiry = Absent, opt_userAgent = Absent\<rparr>"

section \<open>The earlier authenticated client\<close>

text \<open>
  The repository also holds an earlier \<open>RedditOauth\<close>, a class of its own on the event
  emitter, with its own token type and its own \<open>fetch\<close>. Its names carry a \<open>0\<close> here
  where they would clash with the names above. It emits only \<open>tokenRefreshed\<close>.
\<close>

record BetterToken0 =
  accessToken :: "string option"
  refreshToken :: "string option"
  expiry0 :: "jsnum option"

record RedditOauth0 =
  token0 :: "BetterToken0 option"
  clientID :: string
  clientSecret :: string
  username0 :: "string option"
  password0 :: "string option"
  appType0 :: appType_t
  userAgent0 :: string
  rateLimitRemaining :: jsnum
  rateLimitReset :: jsnum
  rateLimitReached :: bool
  refreshListener :: bool
  refreshed :: "BetterToken0 list"

record RedditOauthOptions =
  o_clientID :: string
  o_clientSecret :: string
  o_token :: "BetterToken0 option"
  o_userAgent :: "string option"
  o_appType :: appType_t
  o_username :: "string option"
  o_password :: "string option"

definition new_RedditOauth0 :: "RedditOauthOptions \<Rightarrow> RedditOauth0" where
  "new_RedditOauth0 options =
     \<lparr>token0 = None,
      clientID = o_clientID options,
      clientSecret = o_clientSecret options,
      username0 = (if o_appType options = Script then o_username options else None),
      password0 = (if o_appType options = Script then o_password options else None),
      appType0 = o_appType options,
      userAgent0 = (case o_userAgent options of None \<Rightarrow> ''reddeno'' | Some u \<Rightarrow> u),
      rateLimitRemaining = Fin 60, rateLimitReset = Fin 0, rateLimitReached = False,
      refreshListener = False, refreshed = []\<rparr>"

definition setToken0 :: "BetterToken0 \<Rightarrow> RedditOauth0 \<Rightarrow> RedditOauth0" where
  "setToken0 t s = s\<lparr>token0 := Some t\<rparr>"

definition emit_tokenRefreshed :: "RedditOauth0 \<Rightarrow> RedditOauth0" where
  "emit_tokenRefreshed s =
     (if refreshListener s
      then (case token0 s of None \<Rightarrow> s | Some t \<Rightarrow> s\<lparr>refreshed := refreshed s @ [t]\<rparr>)
      else s)"

definition held_refreshToken :: "RedditOauth0 \<Rightarrow> string option" where
  "held_refreshToken s = (case token0 s of None \<Rightarrow> None | Some t \<Rightarrow> refreshToken t)"

definition getOauthToken ::
  "'a server \<Rightarrow> bool \<Rightarrow> RedditOauth0 \<Rightarrow> 'a world \<Rightarrow> ('a granted, RedditOauth0, 'a) outcome" where
  "getOauthToken srv rfr s w =
     (case appType0 s of
        Web \<Rightarrow>
          if rfr \<and> truthy (held_refreshToken s)
          then
            (case net_fetch srv
                    (token_request (clientID s @ '':'' @ clientSecret s)
                       [(''grant_type'', ''refresh_token''),
                        (''refresh_token'', template (held_refreshToken s))]) w of
               (NetworkError, w1) \<Rightarrow> (Inl (TypeError ''fetch failed''), s, w1)
             | (Response res, w1) \<Rightarrow>
                 (let j = payload res
                  in if j = Not_json then (Inl (SyntaxError ''Unexpected token''), s, w1)
                     else case error_in j of
                       Some err \<Rightarrow> (Inl (Error err), s, w1)
                     | None \<Rightarrow>
                         (Inr (Body j),
                          emit_tokenRefreshed
                            (setToken0 \<lparr>accessToken = access_of j, refreshToken = refresh_of j,
                                        expiry0 = Some (expiry_of j (now w1))\<rparr> s),
                          w1)))
          else (Inl (Error ''Use setToken to set the token for web apps''), s, w)
      | Script \<Rightarrow>
          if \<not> truthy (username0 s) \<or> \<not> truthy (password0 s)
          then (Inl (Error ''Username and password are required for script apps''), s, w)
          else
            (case net_fetch srv
                    (token_request (clientID s @ '':'' @ clientSecret s)
                       [(''grant_type'', ''password''),
                        (''username'', template (username0 s)),
                        (''password'', template (password0 s))]) w of
               (NetworkError, w1) \<Rightarrow> (Inl (TypeError ''fetch failed''), s, w1)
             | (Response res, w1) \<Rightarrow>
                 (let j = payload res
                  in if j = Not_json then (Inl (SyntaxError ''Unexpected token''), s, w1)
                     else case error_in j of
                       Some err \<Rightarrow> (Inl (Error err), s, w1)
                     | None \<Rightarrow>
                         (Inr (Body j),
                          setToken0 \<lparr>accessToken = access_of j, refreshToken = None,
                                     expiry0 = Some (expiry_of j (now w1))\<rparr> s,
                          w1))))"

text \<open>The test at the head of the earlier \<open>fetch\<close>: no token, or the clock past its
  expiry; reading the expiry of a token that has none throws.\<close>

definition stale0 :: "RedditOauth0 \<Rightarrow> 'a world \<Rightarrow> error + bool" where
  "stale0 s w =
     (case token0 s of
        None \<Rightarrow> Inr True
      | Some t \<Rightarrow>
          (case expiry0 t of
             None \<Rightarrow> Inl (TypeError ''Cannot read properties of undefined'')
           | Some e \<Rightarrow> Inr (js_gt (Fin (now w)) e)))"

text \<open>
  The delay of the earlier wait, \<open>(rateLimitReset - Date.now() / 1000) * 1000\<close> with the
  reset time in seconds, is computed in floating point, and the timer drops the fraction of
  the delay it is given. The arithmetic of floating point is not modelled: the whole number
  of milliseconds that the timer makes of the expression is a parameter of the earlier
  fetch, a function of the reset time and of the clock. The exact value of the expression
  is one such function; rounding can leave the timer with a millisecond less.
\<close>

type_synonym float_delay = "int \<Rightarrow> int \<Rightarrow> int"

definition exact_delay :: float_delay where
  "exact_delay r t = r * 1000 - t"


fun delay0 :: "float_delay \<Rightarrow> jsnum \<Rightarrow> int \<Rightarrow> jsnum" where
  "delay0 fl (Fin r) t = Fin (fl r t)"
| "delay0 fl NaN t = NaN"

definition url0 :: "input \<Rightarrow> url" where
  "url0 inp = new_URL inp ''https://oauth.reddit.com''"

text \<open>The earlier \<open>fetch\<close> from its rate-limit wait on.\<close>

definition wait0 :: "float_delay \<Rightarrow> RedditOauth0 \<Rightarrow> 'a world \<Rightarrow> 'a world" where
  "wait0 fl s w =
     (if rateLimitRemaining s = Fin 0
      then setTimeout (delay0 fl (rateLimitReset s) (now w)) w
      else w)"

definition request0 ::
  "float_delay \<Rightarrow> 'a server \<Rightarrow> input \<Rightarrow> RequestInit \<Rightarrow> RedditOauth0 \<Rightarrow> 'a world
     \<Rightarrow> ('a response, RedditOauth0, 'a) outcome" where
  "request0 fl srv inp opts s1 w1 =
     (let s2 = (if rateLimitRemaining s1 = Fin 0 then s1\<lparr>rateLimitReached := True\<rparr> else s1);
          w2 = wait0 fl s1 w1
      in case token0 s2 of
           None \<Rightarrow> (Inl (TypeError ''Cannot read properties of undefined''), s2, w2)
         | Some t \<Rightarrow>
             (case net_fetch srv
                     \<lparr>req_url = url0 inp, req_init = bearer (accessToken t) opts\<rparr> w2 of
                (NetworkError, w3) \<Rightarrow> (Inl (TypeError ''fetch failed''), s2, w3)
              | (Response res, w3) \<Rightarrow>
                  if \<not> ok res
                  then (Inl (StatusError (status res) (statusText res)), s2, w3)
                  else (Inr res,
                        s2\<lparr>rateLimitRemaining := parseInt (x_ratelimit_remaining res),
                            rateLimitReset := parseInt (x_ratelimit_reset res)\<rparr>,
                        w3)))"

text \<open>The earlier \<open>fetch\<close>: the test of the token, the grant when the test asks for
  one, and the part above.\<close>

definition fetch0 ::
  "float_delay \<Rightarrow> 'a server \<Rightarrow> input \<Rightarrow> RequestInit \<Rightarrow> RedditOauth0 \<Rightarrow> 'a world
     \<Rightarrow> ('a response, RedditOauth0, 'a) outcome" where
  "fetch0 fl srv inp opts s w =
     (case stale0 s w of
        Inl e \<Rightarrow> (Inl e, s, w)
      | Inr st \<Rightarrow>
          (case (if st then getOauthToken srv True s w else (Inr Nothing, s, w)) of
             (Inl e, s1, w1) \<Rightarrow> (Inl e, s1, w1)
           | (Inr g, s1, w1) \<Rightarrow> request0 fl srv inp opts s1 w1))"

text \<open>The grant request of the earlier \<open>getOauthToken(true)\<close>, when it makes one.\<close>

definition grant_request0 :: "RedditOauth0 \<Rightarrow> request option" where
  "grant_request0 s =
     (case appType0 s of
        Web \<Rightarrow>
          if truthy (held_refreshToken s)
          then Some (token_request (clientID s @ '':'' @ clientSecret s)
                       [(''grant_type'', ''refresh_token''),
                        (''refresh_token'', template (held_refreshToken s))])
          else None
      | Script \<Rightarrow>
          if \<not> truthy (username0 s) \<or> \<not> truthy (password0 s) then None
          else Some (token_request (clientID s @ '':'' @ clientSecret s)
                       [(''grant_type'', ''password''),
                        (''username'', template (username0 s)),
                        (''password'', template (password0 s))]))"

text \<open>A request is a grant when it carries basic credentials; the requests of the
  authenticated sessions' \<open>fetch\<close> carry a bearer token instead.\<close>

definition is_grant :: "request \<Rightarrow> bool" where
  "is_grant rq =
     (case map_of (headers (req_init rq)) ''Authorization'' of
        Some (Basic c) \<Rightarrow> True
      | _ \<Rightarrow> False)"

text \<open>The exchanges that a call added to the trace and that are no grants.\<close>

definition requests :: "'a world \<Rightarrow> 'a world \<Rightarrow> 'a exchange list" where
  "requests w w' = filter (\<lambda>x. \<not> is_grant (sent x)) (added w w')"

text \<open>
  What the loop needs of the session's fetch: a fetch that returns a body has added its
  request, which is no grant, carries the cursor of the URL it was given and was answered
  with that body; before the request it may have added grants, or, for a fetch that makes
  no grants, nothing.
\<close>

definition fetches_pages :: "bool \<Rightarrow> ('s, 'a) fetcher \<Rightarrow> bool" where
  "fetches_pages plain fetch =
     (\<forall>u s w j s1 w1. fetch (Url u) no_init s w = (Inr j, s1, w1) \<longrightarrow>
        (\<exists>gs x. trace w1 = trace w @ gs @ [x]
           \<and> (\<forall>g\<in>set gs. is_grant (sent g)) \<and> (plain \<longrightarrow> gs = [])
           \<and> \<not> is_grant (sent x)
           \<and> cursor_of (sent x) = map_of (search u) ''after''
           \<and> (\<exists>res. got x = Response res \<and> payload res = j)))"

text \<open>The time at which a fetch of the authenticated session comes to the rate-limit gate:
  the time of the call, or, after a grant, the time its response is there.\<close>

definition at_gate :: "'a server \<Rightarrow> 's RedditOauth_scheme \<Rightarrow> 'a world \<Rightarrow> int" where
  "at_gate srv s w =
     (if token_stale s w then now (snd (snd (getNewToken srv s w))) else now w)"

subsection \<open>Mock sessions and a mock token endpoint\<close>

text \<open>A token endpoint that grants a token for an hour, one that reports an error, and
  one that grants a token together with a new refresh token; every other request goes to
  the mock listing endpoint.\<close>

definition json_reply :: "'a json \<Rightarrow> 'a reply" where
  "json_reply j =
     Response \<lparr>ok = True, status = 200, statusText = ''OK'',
               x_ratelimit_remaining = NoHeader, x_ratelimit_reset = NoHeader,
               payload = j\<rparr>"

definition granted_body :: "string option \<Rightarrow> OauthTokenResponseBody" where
  "granted_body rt =
     \<lparr>access_token = ''fresh'', token_type = ''bearer'', expires_in = 3600, scope = ''*'',
      refresh_token = rt\<rparr>"

definition granting :: "string option \<Rightarrow> nat server" where
  "granting rt history t rq =
     (if is_grant rq then (json_reply (Token_body (granted_body rt)), 50)
      else mock history t rq)"

definition denying :: "nat server" where
  "denying history t rq =
     (if is_grant rq then (json_reply (Error_body ''invalid_grant''), 50)
      else mock history t rq)"



text \<open>A script session and a web session, as the factory builds them.\<close>

definition script_init :: RedditInit where
  "script_init =
     no_options\<lparr>opt_clientId := Given (Some ''id''), opt_clientSecret := Given (Some ''secret''),
                opt_username := Given (Some ''user''), opt_password := Given (Some ''pw'')\<rparr>"

definition web_init :: RedditInit where
  "web_init =
     no_options\<lparr>opt_clientId := Given (Some ''id''), opt_clientSecret := Given (Some ''secret''),
                opt_refreshToken := Given (Some ''r0''), opt_accessToken := Given (Some ''a0''),
                opt_tokenExpiry := Given (Some (Fin 1000))\<rparr>"

definition script0 :: RedditOauth where
  "script0 = new_RedditOauth script_init 1000"

definition web0 :: RedditOauth where
  "web0 = new_RedditOauth web_init 1000"

definition me :: input where
  "me = Path ''api/v1/me''"

text \<open>Sessions of the earlier client.\<close>

definition script00 :: RedditOauth0 where
  "script00 =
     new_RedditOauth0 \<lparr>o_clientID = ''id'', o_clientSecret = ''secret'', o_token = None,
                       o_userAgent = None, o_appType = Script,
                       o_username = Some ''user'', o_password = Some ''pw''\<rparr>"

definition web00 :: RedditOauth0 where
  "web00 =
     setToken0 \<lparr>accessToken = Some ''a0'', refreshToken = Some ''r0'', expiry0 = Some (Fin 1000)\<rparr>
       (new_RedditOauth0 \<lparr>o_clientID = ''id'', o_clientSecret = ''secret'', o_token = None,
                          o_userAgent = None, o_appType = Web,
                          o_username = None, o_password = None\<rparr>)"








text \<open>A web session whose token has lost its refresh token, and a later world in which
  the tokens above have expired.\<close>

definition web_no_refresh :: RedditOauth where
  "web_no_refresh =
     setToken \<lparr>access = Some ''a0'', refresh = None, expiry = Some (Fin 1000), scopes = None\<rparr> web0"

definition w_late :: "nat world" where
  "w_late = \<lparr>now = 2000, trace = []\<rparr>"

definition expired_msg :: string where
  "expired_msg = ''Access token expired; excpected a refresh token.''"

text \<open>The specification's condition on the token of a request: its expiry is strictly
  after the time the request is sent.\<close>

definition live_at :: "BetterToken \<Rightarrow> int \<Rightarrow> bool" where
  "live_at t time = (case expiry t of None \<Rightarrow> False | Some e \<Rightarrow> js_gt e (Fin time))"

section \<open>Fetches in flight together\<close>

text \<open>
  An asynchronous call runs until it has to wait and is resumed when what it waits for is
  there; the session is shared by the calls in flight. A fetch of the authenticated session
  waits for the response to its grant inside \<open>getNewToken\<close>, then for its own
  continuation after \<open>await this.getNewToken()\<close>, which is a job of its own even when
  \<open>getNewToken\<close> has returned without waiting, then for the timer of the rate-limit gate,
  and for the response to its request. The model keeps, for every fetch, what it waits for
  and when that is due. Between two of these waits a fetch runs in one piece. The order
  in which fetches that are due are resumed is the platform's: the loop below takes the
  fetch that is due first, and a run can also be given the order outright.
\<close>

datatype 'a waiting =
    Grant_reply "'a reply" int
  | Token_returned int
  | Timer int
  | Api_reply "'a reply" int
  | Settled "error + 'a json"

record 'a fetching =
  f_input :: input
  f_options :: RequestInit
  f_waiting :: "'a waiting"

text \<open>Sending a request without waiting for its response: the exchange is on the trace,
  the reply is due after the time the exchange takes.\<close>

definition send :: "'a server \<Rightarrow> request \<Rightarrow> 'a world \<Rightarrow> 'a waiting \<times> 'a world" where
  "send srv rq w =
     (case srv (trace w) (now w) rq of
        (rp, latency) \<Rightarrow>
          ((if is_grant rq then Grant_reply rp (now w + int latency)
            else Api_reply rp (now w + int latency)),
           w\<lparr>trace := trace w @ [\<lparr>sent_at = now w, sent = rq, got = rp\<rparr>]\<rparr>))"

text \<open>\<open>RedditAnon.fetch\<close> up to its first wait, and from the timer on.\<close>

definition enter_gate ::
  "'a server \<Rightarrow> input \<Rightarrow> RequestInit \<Rightarrow> 's RedditAnon_scheme \<Rightarrow> 'a world
     \<Rightarrow> 'a waiting \<times> 'a world" where
  "enter_gate srv inp opts s w =
     (if reqRemaining (rateLimit s) = Fin 0 then (Timer (now (rate_gate s w)), w)
      else send srv (api_request inp opts s) w)"

text \<open>\<open>RedditAnon.fetch\<close> from the response on.\<close>

definition receive ::
  "'a reply \<Rightarrow> 's RedditAnon_scheme \<Rightarrow> (error + 'a json) \<times> 's RedditAnon_scheme" where
  "receive rp s =
     (case rp of
        NetworkError \<Rightarrow> (Inl (TypeError ''fetch failed''), s)
      | Response res \<Rightarrow>
          (case (if \<not> ok res then emit (ErrorEvent (Error (statusText res))) s else Inr s) of
             Inl e \<Rightarrow> (Inl e, s)
           | Inr s1 \<Rightarrow>
               (let s2 = s1\<lparr>rateLimit :=
                           \<lparr>reqRemaining = Number (x_ratelimit_remaining res),
                            resetMs = Number (x_ratelimit_reset res)\<rparr>\<rparr>
                in case payload res of
                     Not_json \<Rightarrow> (Inl (SyntaxError ''Unexpected token''), s2)
                   | j \<Rightarrow> (Inr j, s2))))"

text \<open>The grant request of \<open>getNewToken\<close>, when it makes one.\<close>

definition grant_request :: "'s RedditOauth_scheme \<Rightarrow> request option" where
  "grant_request s =
     (case appType s of
        Some Web \<Rightarrow>
          if \<not> truthy (refresh (token s)) then None
          else Some (token_request (template (id' s) @ '':'' @ template (secret s))
                       [(''grant_type'', ''refresh_token''),
                        (''refresh_token'', template (refresh (token s)))])
      | Some Script \<Rightarrow>
          if \<not> truthy (username s) \<or> \<not> truthy (password s) then None
          else Some (token_request (template (id' s) @ '':'' @ template (secret s))
                       [(''grant_type'', ''password''),
                        (''username'', template (username s)),
                        (''password'', template (password s))])
      | None \<Rightarrow> None)"

text \<open>\<open>RedditOauth.fetch\<close> from its continuation after \<open>getNewToken\<close> on: the bearer
  token is read from the session as it then is, and the fetch of the base class begins.\<close>

definition proceed ::
  "'a server \<Rightarrow> 'a fetching \<Rightarrow> 's RedditOauth_scheme \<Rightarrow> 'a world
     \<Rightarrow> 'a fetching \<times> 's RedditOauth_scheme \<times> 'a world" where
  "proceed srv f s w =
     (let opts = bearer (access (token s)) (f_options f)
      in case enter_gate srv (f_input f) opts s w of
           (wt, w1) \<Rightarrow> (f\<lparr>f_options := opts, f_waiting := wt\<rparr>, s, w1))"

definition settle ::
  "error \<Rightarrow> 'a fetching \<Rightarrow> 's \<Rightarrow> 'a world \<Rightarrow> 'a fetching \<times> 's \<times> 'a world" where
  "settle e f s w = (f\<lparr>f_waiting := Settled (Inl e)\<rparr>, s, w)"

definition returned ::
  "'a fetching \<Rightarrow> 's \<Rightarrow> 'a world \<Rightarrow> 'a fetching \<times> 's \<times> 'a world" where
  "returned f s w = (f\<lparr>f_waiting := Token_returned (now w)\<rparr>, s, w)"

text \<open>A call of \<open>RedditOauth.fetch\<close>, up to its first wait. With a token that passes
  the test there is no wait before the fetch of the base class.\<close>

definition call ::
  "'a server \<Rightarrow> input \<Rightarrow> RequestInit \<Rightarrow> 's RedditOauth_scheme \<Rightarrow> 'a world
     \<Rightarrow> 'a fetching \<times> 's RedditOauth_scheme \<times> 'a world" where
  "call srv inp opts s w =
     (let f = \<lparr>f_input = inp, f_options = opts, f_waiting = Timer (now w)\<rparr>
      in if \<not> token_stale s w then proceed srv f s w
         else case appType s of
           None \<Rightarrow> returned f s w
         | Some Web \<Rightarrow>
             (case grant_request s of
                None \<Rightarrow>
                  (case emit (ErrorEvent (Error ''Access token expired; excpected a refresh token.'')) s of
                     Inl e \<Rightarrow> settle e f s w
                   | Inr s1 \<Rightarrow> returned f s1 w)
              | Some rq \<Rightarrow>
                  (case send srv rq w of (wt, w1) \<Rightarrow> (f\<lparr>f_waiting := wt\<rparr>, s, w1)))
         | Some Script \<Rightarrow>
             (case grant_request s of
                None \<Rightarrow> settle (Error ''Username and password are required for script apps'') f s w
              | Some rq \<Rightarrow>
                  (case send srv rq w of (wt, w1) \<Rightarrow> (f\<lparr>f_waiting := wt\<rparr>, s, w1))))"

text \<open>\<open>getNewToken\<close> from the response to its grant on, at the time the response is
  handled: it throws, or it returns with the session as it leaves it.\<close>

definition after_grant ::
  "'a reply \<Rightarrow> int \<Rightarrow> 's RedditOauth_scheme \<Rightarrow> (error + unit) \<times> 's RedditOauth_scheme" where
  "after_grant rp t s =
     (case rp of
        NetworkError \<Rightarrow> (Inl (TypeError ''fetch failed''), s)
      | Response res \<Rightarrow>
          (let j = payload res
           in if j = Not_json then (Inl (SyntaxError ''Unexpected token''), s)
              else case error_in j of
                Some err \<Rightarrow>
                  (case emit (ErrorEvent (Error err)) s of
                     Inl e \<Rightarrow> (Inl e, s)
                   | Inr s1 \<Rightarrow> (Inr (), s1))
              | None \<Rightarrow>
                  (case appType s of
                     Some Web \<Rightarrow>
                       (let s1 = setToken \<lparr>access = access_of j, refresh = refresh (token s),
                                    expiry = Some (expiry_of j t), scopes = None\<rparr> s
                        in case emit (TokenRefreshed (token s1)) s1 of
                             Inl e \<Rightarrow> (Inl e, s1)
                           | Inr s2 \<Rightarrow> (Inr (), s2))
                   | _ \<Rightarrow>
                       (Inr (),
                        setToken \<lparr>access = access_of j, refresh = None,
                                  expiry = Some (expiry_of j t), scopes = None\<rparr> s))))"

text \<open>Resuming a fetch when what it waits for is there. The clock is at the due time, or
  later when the loop was busy.\<close>

definition resume ::
  "'a server \<Rightarrow> 'a fetching \<Rightarrow> 's RedditOauth_scheme \<Rightarrow> 'a world
     \<Rightarrow> 'a fetching \<times> 's RedditOauth_scheme \<times> 'a world" where
  "resume srv f s w =
     (case f_waiting f of
        Settled r \<Rightarrow> (f, s, w)
      | Timer t \<Rightarrow>
          (let w1 = w\<lparr>now := max (now w) t\<rparr>
           in case send srv (api_request (f_input f) (f_options f) s) w1 of
                (wt, w2) \<Rightarrow> (f\<lparr>f_waiting := wt\<rparr>, s, w2))
      | Api_reply rp t \<Rightarrow>
          (let w1 = w\<lparr>now := max (now w) t\<rparr>
           in case receive rp s of (r, s1) \<Rightarrow> (f\<lparr>f_waiting := Settled r\<rparr>, s1, w1))
      | Grant_reply rp t \<Rightarrow>
          (let w1 = w\<lparr>now := max (now w) t\<rparr>
           in case after_grant rp (now w1) s of
                (Inl e, s1) \<Rightarrow> settle e f s1 w1
              | (Inr u, s1) \<Rightarrow> returned f s1 w1)
      | Token_returned t \<Rightarrow> proceed srv f s (w\<lparr>now := max (now w) t\<rparr>))"

text \<open>The state of the loop: the session, the world and the fetches in flight, in the
  order of their calls.\<close>

record ('s, 'a) loop =
  shared :: "'s"
  outside :: "'a world"
  flights :: "'a fetching list"

definition calling ::
  "'a server \<Rightarrow> input \<Rightarrow> RequestInit \<Rightarrow> ('s RedditOauth_scheme, 'a) loop
     \<Rightarrow> ('s RedditOauth_scheme, 'a) loop" where
  "calling srv inp opts l =
     (case call srv inp opts (shared l) (outside l) of
        (f, s, w) \<Rightarrow> \<lparr>shared = s, outside = w, flights = flights l @ [f]\<rparr>)"

text \<open>The calls of a list of fetches, one after the other without a wait in between.\<close>

fun calling_all ::
  "'a server \<Rightarrow> (input \<times> RequestInit) list \<Rightarrow> ('s RedditOauth_scheme, 'a) loop
     \<Rightarrow> ('s RedditOauth_scheme, 'a) loop" where
  "calling_all srv [] l = l"
| "calling_all srv (c # cs) l = calling_all srv cs (calling srv (fst c) (snd c) l)"

fun due :: "'a waiting \<Rightarrow> int option" where
  "due (Grant_reply rp t) = Some t"
| "due (Token_returned t) = Some t"
| "due (Timer t) = Some t"
| "due (Api_reply rp t) = Some t"
| "due (Settled r) = None"

text \<open>The fetch that is due first; of two that are due together, the one called first.\<close>

fun first_due :: "'a fetching list \<Rightarrow> nat \<Rightarrow> (nat \<times> int) option \<Rightarrow> (nat \<times> int) option" where
  "first_due [] i best = best"
| "first_due (f # fs) i best =
     first_due fs (Suc i)
       (case due (f_waiting f) of
          None \<Rightarrow> best
        | Some t \<Rightarrow> (case best of None \<Rightarrow> Some (i, t)
                     | Some (j, u) \<Rightarrow> if t < u then Some (i, t) else Some (j, u)))"

text \<open>Resuming the fetch at a place in the list.\<close>

definition resume_at ::
  "'a server \<Rightarrow> nat \<Rightarrow> ('s RedditOauth_scheme, 'a) loop \<Rightarrow> ('s RedditOauth_scheme, 'a) loop" where
  "resume_at srv i l =
     (if i < length (flights l)
      then (case resume srv (flights l ! i) (shared l) (outside l) of
              (f, s, w) \<Rightarrow> \<lparr>shared = s, outside = w, flights = (flights l)[i := f]\<rparr>)
      else l)"

definition turn ::
  "'a server \<Rightarrow> ('s RedditOauth_scheme, 'a) loop \<Rightarrow> ('s RedditOauth_scheme, 'a) loop" where
  "turn srv l =
     (case first_due (flights l) 0 None of
        None \<Rightarrow> l
      | Some (i, t) \<Rightarrow> resume_at srv i l)"

text \<open>Every fetch is resumed at most four times, so four turns for each fetch in flight
  settle them all.\<close>

fun turns ::
  "nat \<Rightarrow> 'a server \<Rightarrow> ('s RedditOauth_scheme, 'a) loop \<Rightarrow> ('s RedditOauth_scheme, 'a) loop" where
  "turns 0 srv l = l"
| "turns (Suc n) srv l = turns n srv (turn srv l)"

definition run_loop ::
  "'a server \<Rightarrow> ('s RedditOauth_scheme, 'a) loop \<Rightarrow> ('s RedditOauth_scheme, 'a) loop" where
  "run_loop srv l = turns (4 * length (flights l)) srv l"

text \<open>A run in a given order of resumptions, and the order in which every fetch in flight
  is resumed once before any is resumed again: the order of a loop that finds all the
  responses to the grants there together.\<close>

fun resumed_in ::
  "'a server \<Rightarrow> nat list \<Rightarrow> ('s RedditOauth_scheme, 'a) loop \<Rightarrow> ('s RedditOauth_scheme, 'a) loop" where
  "resumed_in srv [] l = l"
| "resumed_in srv (i # order) l = resumed_in srv order (resume_at srv i l)"

definition in_rounds :: "nat \<Rightarrow> nat list" where
  "in_rounds n = concat (replicate 4 [0..<n])"

definition succeeded :: "'a fetching \<Rightarrow> bool" where
  "succeeded f = (case f_waiting f of Settled (Inr j) \<Rightarrow> True | _ \<Rightarrow> False)"

definition grants :: "'a exchange list \<Rightarrow> nat" where
  "grants xs = length (filter (\<lambda>x. is_grant (sent x)) xs)"

text \<open>Ten fetches of the web session, called together at 2000 ms, when its token has
  expired.\<close>

definition ten_calls :: "(input \<times> RequestInit) list" where
  "ten_calls = replicate 10 (me, no_init)"

definition idle :: "RedditOauth \<Rightarrow> nat world \<Rightarrow> (RedditOauth, nat) loop" where
  "idle s w = \<lparr>shared = s, outside = w, flights = []\<rparr>"

definition waits_for_grant :: "'a fetching \<Rightarrow> bool" where
  "waits_for_grant f = (case f_waiting f of Grant_reply rp t \<Rightarrow> True | _ \<Rightarrow> False)"

section \<open>Properties\<close>

subsection \<open>One fetch of the anonymous session\<close>

lemma trace_setTimeout: "trace (setTimeout d w) = trace w"
  by (cases d) simp_all

lemma trace_rate_gate: "trace (rate_gate s w) = trace w"
  by (simp add: rate_gate_def trace_setTimeout)

lemma RedditAnon_fetch_trace:
  assumes "RedditAnon_fetch srv inp opts s w = (r, s', w')"
  shows "trace w' = trace w @ [\<lparr>sent_at = now (rate_gate s w), sent = api_request inp opts s,
            got = fst (srv (trace w) (now (rate_gate s w)) (api_request inp opts s))\<rparr>]"
  using assms
  by (auto simp: RedditAnon_fetch_def net_fetch_def trace_rate_gate Let_def
           split: prod.splits reply.splits sum.splits json.splits if_splits)

lemma RedditAnon_fetch_Inr:
  assumes "RedditAnon_fetch srv inp opts s w = (Inr j, s', w')"
  shows "\<exists>res. fst (srv (trace w) (now (rate_gate s w)) (api_request inp opts s)) = Response res
            \<and> payload res = j \<and> j \<noteq> Not_json"
  using assms
  by (auto simp: RedditAnon_fetch_def net_fetch_def trace_rate_gate Let_def
           split: prod.splits reply.splits sum.splits json.splits if_splits)

lemma map_of_sp_set_same: "map_of (sp_set k v ps) k = Some v"
  by (induction ps) auto

lemma map_of_filter_other: "k' \<noteq> k \<Longrightarrow> map_of (filter (\<lambda>q. fst q \<noteq> k) ps) k' = map_of ps k'"
  by (induction ps) auto

lemma map_of_sp_set_other: "k' \<noteq> k \<Longrightarrow> map_of (sp_set k v ps) k' = map_of ps k'"
  by (induction ps) (auto simp: map_of_filter_other)

lemma cursor_of_api_request:
  "cursor_of (api_request (Url u) opts s) = map_of (search u) ''after''"
  by (simp add: cursor_of_def api_request_def Let_def map_of_sp_set_other)

text \<open>The time at which the gate lets a fetch through.\<close>

lemma now_rate_gate:
  "now (rate_gate s w) =
     (if reqRemaining (rateLimit s) = Fin 0
      then (case resetMs (rateLimit s) of
              NaN \<Rightarrow> now w
            | Fin r \<Rightarrow> if r - now w > TIMEOUT_MAX then now w + 1 else max (now w) r)
      else now w)"
  by (cases "resetMs (rateLimit s)") (auto simp: rate_gate_def)

lemma now_rate_gate_ge: "now w \<le> now (rate_gate s w)"
  by (simp add: now_rate_gate split: jsnum.splits)


lemma RedditAnon_fetch_added:
  assumes "RedditAnon_fetch srv inp opts s w = (r, s', w')"
  shows "added w w' = [\<lparr>sent_at = now (rate_gate s w), sent = api_request inp opts s,
            got = fst (srv (trace w) (now (rate_gate s w)) (api_request inp opts s))\<rparr>]"
  using RedditAnon_fetch_trace[OF assms] by (simp add: added_def)


lemma RedditAnon_fetch_more:
  fixes s :: "'s RedditOauth_scheme"
  assumes "RedditAnon_fetch srv inp opts s w = (r, s', w')"
  shows "token s' = token s" and "appType s' = appType s"
  using assms
  by (auto simp: RedditAnon_fetch_def Let_def
      split: prod.splits reply.splits sum.splits json.splits if_splits)

subsection \<open>Grants and the requests of a fetch\<close>

lemma map_of_set_key_same: "map_of (set_key k v ps) k = Some v"
  by (induction ps) auto

lemma map_of_set_key_other: "k' \<noteq> k \<Longrightarrow> map_of (set_key k v ps) k' = map_of ps k'"
  by (induction ps) auto

lemma is_grant_token_request: "is_grant (token_request c form)"
  by (simp add: is_grant_def token_request_def)

lemma not_is_grant_api_request: "\<not> is_grant (api_request inp (bearer a opts) s)"
  by (simp add: is_grant_def api_request_def bearer_def Let_def
        map_of_set_key_other map_of_set_key_same)

lemma not_is_grant_plain_request: "\<not> is_grant (api_request inp no_init s)"
  by (simp add: is_grant_def api_request_def no_init_def Let_def)

lemma not_is_grant_bearer: "\<not> is_grant \<lparr>req_url = u, req_init = bearer a opts\<rparr>"
  by (simp add: is_grant_def bearer_def map_of_set_key_same)

lemma is_grant_grant_request: "grant_request s = Some rq \<Longrightarrow> is_grant rq"
  by (auto simp: grant_request_def is_grant_token_request
      split: option.splits appType_t.splits if_splits)

lemma is_grant_grant_request0: "grant_request0 s = Some rq \<Longrightarrow> is_grant rq"
  by (auto simp: grant_request0_def is_grant_token_request
      split: appType_t.splits if_splits)

lemma net_fetch_result:
  assumes "net_fetch srv rq w = (rp, w1)"
  shows "trace w1 = trace w @ [\<lparr>sent_at = now w, sent = rq, got = rp\<rparr>]"
    and "now w \<le> now w1"
    and "rp = fst (srv (trace w) (now w) rq)"
  using assms by (auto simp: net_fetch_def split: prod.splits)

text \<open>A call of \<open>getNewToken\<close> adds the grant request of the session, sent at once, when
  the session has one to make, and nothing otherwise; it leaves the rate-limit state
  alone.\<close>

lemma getNewToken_added:
  assumes "getNewToken srv s w = (g, s1, w1)"
  shows "trace w1 = trace w @
           (case grant_request s of
              None \<Rightarrow> []
            | Some rq \<Rightarrow> [\<lparr>sent_at = now w, sent = rq, got = fst (srv (trace w) (now w) rq)\<rparr>])"
  using assms
  by (auto simp: getNewToken_def grant_request_def emit_error_def net_fetch_def Let_def
      split: option.splits appType_t.splits if_splits prod.splits reply.splits)

lemma getNewToken_trace:
  assumes "getNewToken srv s w = (g, s1, w1)"
  shows "\<exists>gs. trace w1 = trace w @ gs \<and> length gs \<le> 1
           \<and> (\<forall>x\<in>set gs. is_grant (sent x) \<and> sent_at x = now w)"
    and "now w \<le> now w1"
    and "rateLimit s1 = rateLimit s"
  using assms
  by (auto simp: getNewToken_def emit_error_def net_fetch_def setToken_def
        is_grant_token_request Let_def
      split: option.splits appType_t.splits if_splits prod.splits reply.splits)

lemma RedditOauth_fetch_cases:
  assumes "RedditOauth_fetch srv inp opts s w = (r, s', w')"
  obtains (threw) e where "token_stale s w" and "getNewToken srv s w = (Inl e, s', w')"
      and "r = Inl e"
  | (fresh) "\<not> token_stale s w"
      and "RedditAnon_fetch srv inp (bearer (access (token s)) opts) s w = (r, s', w')"
  | (granted) g s1 w1 where "token_stale s w" and "getNewToken srv s w = (Inr g, s1, w1)"
      and "RedditAnon_fetch srv inp (bearer (access (token s1)) opts) s1 w1 = (r, s', w')"
  using assms
  by (auto simp: RedditOauth_fetch_def split: if_splits prod.splits sum.splits)

lemma added_append:
  "trace w1 = trace w @ gs \<Longrightarrow> trace w' = trace w1 @ xs \<Longrightarrow> added w w' = gs @ xs"
  by (simp add: added_def)

lemma added_trace: "trace w' = trace w @ xs \<Longrightarrow> added w w' = xs"
  by (simp add: added_def)

text \<open>The exchanges of a fetch of the authenticated session: the grant of
  \<open>getNewToken\<close>, if the token was found stale and there was a grant to ask for, and
  then, unless \<open>getNewToken\<close> threw, the request, which is no grant.\<close>

lemma RedditOauth_fetch_added:
  fixes s :: "'s RedditOauth_scheme"
  assumes f: "RedditOauth_fetch srv inp opts s w = (r, s', w')"
  shows "\<exists>gs xs. trace w' = trace w @ gs @ xs
           \<and> gs = (if token_stale s w
                   then (case grant_request s of
                           None \<Rightarrow> []
                         | Some rq \<Rightarrow> [\<lparr>sent_at = now w, sent = rq,
                                          got = fst (srv (trace w) (now w) rq)\<rparr>])
                   else [])
           \<and> length xs \<le> 1
           \<and> (\<forall>x\<in>set xs. \<not> is_grant (sent x) \<and> sent_at x = now (rate_gate s (w\<lparr>now := at_gate srv s w\<rparr>)))"
  using f
proof (cases rule: RedditOauth_fetch_cases)
  case (threw e)
  from getNewToken_added[OF threw(2)] threw(1) show ?thesis
    by (intro exI[of _ "case grant_request s of None \<Rightarrow> []
            | Some rq \<Rightarrow> [\<lparr>sent_at = now w, sent = rq, got = fst (srv (trace w) (now w) rq)\<rparr>]"]
          exI[of _ "[]"]) simp
next
  case fresh
  have ag: "at_gate srv s w = now w" using fresh(1) by (simp add: at_gate_def)
  from RedditAnon_fetch_trace[OF fresh(2)] fresh(1) show ?thesis
    by (intro exI[of _ "[]"] exI[of _ "[\<lparr>sent_at = now (rate_gate s w),
            sent = api_request inp (bearer (access (token s)) opts) s,
            got = fst (srv (trace w) (now (rate_gate s w))
                    (api_request inp (bearer (access (token s)) opts) s))\<rparr>]"])
       (simp add: not_is_grant_api_request ag)
next
  case (granted g s1 w1)
  have ag: "at_gate srv s w = now w1" using granted(1,2) by (simp add: at_gate_def)
  have rl: "rateLimit s1 = rateLimit s" using getNewToken_trace(3)[OF granted(2)] .
  have gate: "now (rate_gate s1 w1) = now (rate_gate s (w\<lparr>now := now w1\<rparr>))"
    using rl by (cases "resetMs (rateLimit s)") (simp_all add: now_rate_gate)
  from getNewToken_added[OF granted(2)] RedditAnon_fetch_trace[OF granted(3)] granted(1)
  show ?thesis
    by (intro exI[of _ "case grant_request s of None \<Rightarrow> []
            | Some rq \<Rightarrow> [\<lparr>sent_at = now w, sent = rq, got = fst (srv (trace w) (now w) rq)\<rparr>]"]
          exI[of _ "[\<lparr>sent_at = now (rate_gate s1 w1),
            sent = api_request inp (bearer (access (token s1)) opts) s1,
            got = fst (srv (trace w1) (now (rate_gate s1 w1))
                    (api_request inp (bearer (access (token s1)) opts) s1))\<rparr>]"])
       (simp add: not_is_grant_api_request ag gate)
qed

subsection \<open>The pagination loop\<close>

text \<open>One round of the loop, by what the fetch gave.\<close>

lemma paginate_loop_throw:
  "fetch (Url u) no_init s w = (Inl e, s1, w1) \<Longrightarrow>
   paginate_loop fetch cb u lim items c s w = (Inl e, (c, s1), w1)"
  by (subst paginate_loop.simps) simp

lemma paginate_loop_stop:
  "fetch (Url u) no_init s w = (Inr (Listing_body newItems after), s1, w1) \<Longrightarrow>
   \<not> (truthy after \<and> lim - 100 > 0) \<Longrightarrow>
   paginate_loop fetch cb u lim items c s w =
     (Inr (items @ newItems), ((case cb of None \<Rightarrow> c | Some f \<Rightarrow> f newItems c), s1), w1)"
  by (subst paginate_loop.simps) (auto simp: Let_def)

lemma paginate_loop_next:
  "fetch (Url u) no_init s w = (Inr (Listing_body newItems after), s1, w1) \<Longrightarrow>
   truthy after \<Longrightarrow> lim - 100 > 0 \<Longrightarrow>
   paginate_loop fetch cb u lim items c s w =
     paginate_loop fetch cb
       (u\<lparr>search := sp_set ''after'' (PStr (template after)) (search u)\<rparr>)
       (lim - 100) (items @ newItems) (case cb of None \<Rightarrow> c | Some f \<Rightarrow> f newItems c) s1 w1"
  by (subst paginate_loop.simps) (simp add: Let_def)

lemma paginate_loop_other:
  "fetch (Url u) no_init s w = (Inr j, s1, w1) \<Longrightarrow> \<forall>xs a. j \<noteq> Listing_body xs a \<Longrightarrow>
   paginate_loop fetch cb u lim items c s w =
     (Inl (TypeError ''Cannot read properties of undefined''), (c, s1), w1)"
  by (subst paginate_loop.simps) (auto split: json.splits)

lemma RedditAnon_fetch_fetches_pages: "fetches_pages True (RedditAnon_fetch srv)"
  unfolding fetches_pages_def
proof (intro allI impI)
  fix u s w j s1 w1
  assume f: "RedditAnon_fetch srv (Url u) no_init s w = (Inr j, s1, w1)"
  let ?x = "\<lparr>sent_at = now (rate_gate s w), sent = api_request (Url u) no_init s,
            got = fst (srv (trace w) (now (rate_gate s w)) (api_request (Url u) no_init s))\<rparr>"
  from RedditAnon_fetch_trace[OF f] RedditAnon_fetch_Inr[OF f]
  show "\<exists>gs x. trace w1 = trace w @ gs @ [x]
           \<and> (\<forall>g\<in>set gs. is_grant (sent g)) \<and> (True \<longrightarrow> gs = [])
           \<and> \<not> is_grant (sent x)
           \<and> cursor_of (sent x) = map_of (search u) ''after''
           \<and> (\<exists>res. got x = Response res \<and> payload res = j)"
    by (intro exI[of _ "[]"] exI[of _ ?x])
       (auto simp: not_is_grant_plain_request cursor_of_api_request)
qed

lemma RedditOauth_fetch_fetches_pages: "fetches_pages False (RedditOauth_fetch srv)"
  unfolding fetches_pages_def
proof (intro allI impI)
  fix u s w j s1 w1
  assume f: "RedditOauth_fetch srv (Url u) no_init s w = (Inr j, s1, w1)"
  have tail: "\<exists>gs x. trace w1 = trace w @ gs @ [x]
           \<and> (\<forall>g\<in>set gs. is_grant (sent g)) \<and> (False \<longrightarrow> gs = [])
           \<and> \<not> is_grant (sent x)
           \<and> cursor_of (sent x) = map_of (search u) ''after''
           \<and> (\<exists>res. got x = Response res \<and> payload res = j)"
    if a: "RedditAnon_fetch srv (Url u) (bearer (access (token s2)) no_init) s2 w2 = (Inr j, s1, w1)"
      and gs: "trace w2 = trace w @ gs" "\<forall>g\<in>set gs. is_grant (sent g)" for s2 w2 gs
  proof -
    let ?rq = "api_request (Url u) (bearer (access (token s2)) no_init) s2"
    let ?x = "\<lparr>sent_at = now (rate_gate s2 w2), sent = ?rq,
              got = fst (srv (trace w2) (now (rate_gate s2 w2)) ?rq)\<rparr>"
    from RedditAnon_fetch_trace[OF a] RedditAnon_fetch_Inr[OF a] gs
    show ?thesis
      by (intro exI[of _ gs] exI[of _ ?x])
         (auto simp: not_is_grant_api_request cursor_of_api_request)
  qed
  from f show "\<exists>gs x. trace w1 = trace w @ gs @ [x]
           \<and> (\<forall>g\<in>set gs. is_grant (sent g)) \<and> (False \<longrightarrow> gs = [])
           \<and> \<not> is_grant (sent x)
           \<and> cursor_of (sent x) = map_of (search u) ''after''
           \<and> (\<exists>res. got x = Response res \<and> payload res = j)"
  proof (cases rule: RedditOauth_fetch_cases)
    case (threw e)
    then show ?thesis by simp
  next
    case fresh
    show ?thesis by (rule tail[OF fresh(2), of "[]"]) simp_all
  next
    case (granted g s2 w2)
    from getNewToken_trace(1)[OF granted(2)] obtain gs where
      "trace w2 = trace w @ gs" "\<forall>g\<in>set gs. is_grant (sent g)" by blast
    then show ?thesis by (rule tail[OF granted(3)])
  qed
qed

text \<open>
  A traversal that returns has added at least one request; its requests follow the
  stopping rule of the loop, the items returned are the pages received, in order and in
  full, and the callback has seen each page once, in order.
\<close>

lemma paginate_loop_walk:
  assumes fp: "fetches_pages plain fetch"
  shows "paginate_loop fetch cb u lim items c s w = (Inr r, (c', s'), w') \<Longrightarrow>
   \<exists>new. trace w' = trace w @ new
      \<and> (plain \<longrightarrow> filter (\<lambda>x. \<not> is_grant (sent x)) new = new)
      \<and> filter (\<lambda>x. \<not> is_grant (sent x)) new \<noteq> []
      \<and> cursor_of (sent (hd (filter (\<lambda>x. \<not> is_grant (sent x)) new))) = map_of (search u) ''after''
      \<and> walked lim (filter (\<lambda>x. \<not> is_grant (sent x)) new)
      \<and> r = items @ concat (map items_of (filter (\<lambda>x. \<not> is_grant (sent x)) new))
      \<and> c' = (case cb of None \<Rightarrow> c
               | Some f \<Rightarrow> fold (\<lambda>x. f (items_of x)) (filter (\<lambda>x. \<not> is_grant (sent x)) new) c)"
proof (induction "nat lim" arbitrary: u lim items c s w rule: less_induct)
  case less
  let ?api = "filter (\<lambda>x. \<not> is_grant (sent x))"
  obtain q s1 w1 where f: "fetch (Url u) no_init s w = (q, s1, w1)"
    by (cases "fetch (Url u) no_init s w") auto
  have "\<exists>newItems after. q = Inr (Listing_body newItems after)"
  proof (cases q)
    case (Inl e)
    with paginate_loop_throw[of fetch u s w e s1 w1 cb lim items c] f less.prems
    show ?thesis by simp
  next
    case (Inr j)
    show ?thesis
    proof (cases "\<forall>xs a. j \<noteq> Listing_body xs a")
      case True
      with paginate_loop_other[of fetch u s w j s1 w1 cb lim items c] f Inr less.prems
      show ?thesis by simp
    next
      case False
      with Inr show ?thesis by auto
    qed
  qed
  then obtain newItems after where q: "q = Inr (Listing_body newItems after)" by blast
  note f' = f[unfolded q]
  from fp f' obtain gs x res where
    x: "trace w1 = trace w @ gs @ [x]" "\<forall>g\<in>set gs. is_grant (sent g)" "plain \<longrightarrow> gs = []"
       "\<not> is_grant (sent x)" "cursor_of (sent x) = map_of (search u) ''after''"
       "got x = Response res" "payload res = Listing_body newItems after"
    unfolding fetches_pages_def by blast
  have fg: "?api gs = []" using x(2) by (induction gs) auto
  have pg: "page_of x = Some (newItems, after)"
    using x(6,7) by (simp add: page_of_def)
  have it: "items_of x = newItems" using pg by (simp add: items_of_def)
  let ?c = "(case cb of None \<Rightarrow> c | Some f \<Rightarrow> f newItems c)"
  show ?case
  proof (cases "truthy after \<and> lim - 100 > 0")
    case False
    from paginate_loop_stop[where fetch=fetch and cb=cb and items=items and c=c,
        OF f' False] less.prems
    have "r = items @ newItems" "w' = w1" "c' = ?c" by simp_all
    with False x(1,3,4,5) pg it fg show ?thesis
      by (intro exI[of _ "gs @ [x]"]) (auto split: option.splits)
  next
    case True
    let ?u = "u\<lparr>search := sp_set ''after'' (PStr (template after)) (search u)\<rparr>"
    from True paginate_loop_next[where fetch=fetch and cb=cb and items=items
        and c=c and lim=lim, OF f'] less.prems
    have rec: "paginate_loop fetch cb ?u (lim - 100) (items @ newItems) ?c s1 w1
                 = (Inr r, (c', s'), w')"
      by simp
    have "nat (lim - 100) < nat lim" using True by simp
    from less.hyps[OF this rec]
    obtain new where n: "trace w' = trace w1 @ new" "plain \<longrightarrow> ?api new = new"
      "?api new \<noteq> []"
      "cursor_of (sent (hd (?api new))) = map_of (search ?u) ''after''"
      "walked (lim - 100) (?api new)"
      "r = (items @ newItems) @ concat (map items_of (?api new))"
      "c' = (case cb of None \<Rightarrow> ?c | Some f \<Rightarrow> fold (\<lambda>x. f (items_of x)) (?api new) ?c)"
      by blast
    obtain y ys where new: "?api new = y # ys" using n(3) by (cases "?api new") auto
    have cur: "cursor_of (sent y) = Some (PStr (template after))"
      using n(4) new by (simp add: map_of_sp_set_same)
    have all: "?api (gs @ [x] @ new) = x # y # ys"
      using fg x(4) new by simp
    have wk: "walked lim (x # y # ys)"
      using True pg cur n(5) new by simp
    have cb: "c' = (case cb of None \<Rightarrow> c | Some f \<Rightarrow> fold (\<lambda>x. f (items_of x)) (x # y # ys) c)"
      using n(7) it new by (cases cb) simp_all
    have r: "r = items @ concat (map items_of (x # y # ys))"
      using n(6) it new by simp
    have pl: "plain \<longrightarrow> ?api (gs @ [x] @ new) = gs @ [x] @ new"
      using x(3,4) n(2) by simp
    have tr: "trace w' = trace w @ (gs @ [x] @ new)" using n(1) x(1) by simp
    show ?thesis
      apply (rule exI[of _ "gs @ [x] @ new"])
      unfolding all[unfolded append_assoc] 
      using tr pl[unfolded all] x(5) wk cb r by simp
  qed
qed

lemma paginate_walk:
  assumes fp: "fetches_pages plain fetch"
    and p: "paginate fetch endpoint ps cb c s w = (Inr items, (c', s'), w')"
  shows "take (length (trace w)) (trace w') = trace w"
    and "plain \<Longrightarrow> requests w w' = added w w'"
    and "walked (initial_limit ps) (requests w w')"
    and "items = concat (map items_of (requests w w'))"
    and "c' = (case cb of None \<Rightarrow> c | Some f \<Rightarrow> fold (\<lambda>x. f (items_of x)) (requests w w') c)"
proof -
  from paginate_loop_walk[OF fp p[unfolded paginate_def]]
  obtain new where n: "trace w' = trace w @ new"
    "plain \<longrightarrow> filter (\<lambda>x. \<not> is_grant (sent x)) new = new"
    "walked (initial_limit ps) (filter (\<lambda>x. \<not> is_grant (sent x)) new)"
    "items = [] @ concat (map items_of (filter (\<lambda>x. \<not> is_grant (sent x)) new))"
    "c' = (case cb of None \<Rightarrow> c
           | Some f \<Rightarrow> fold (\<lambda>x. f (items_of x)) (filter (\<lambda>x. \<not> is_grant (sent x)) new) c)"
    by blast
  have a: "added w w' = new" using n(1) by (simp add: added_def)
  have b: "requests w w' = filter (\<lambda>x. \<not> is_grant (sent x)) new"
    by (simp add: requests_def a)
  show "take (length (trace w)) (trace w') = trace w" using n(1) by simp
  show "requests w w' = added w w'" if plain using that n(2) a b by simp
  show "walked (initial_limit ps) (requests w w')" using n(3) b by simp
  show "items = concat (map items_of (requests w w'))" using n(4) b by simp
  show "c' = (case cb of None \<Rightarrow> c | Some f \<Rightarrow> fold (\<lambda>x. f (items_of x)) (requests w w') c)"
    using n(5) unfolding b .
qed

text \<open>
  Claim C2, as the code has it. A traversal that returns has only added exchanges to the
  trace, and its requests follow the loop's stopping rule: after each page but the last
  the page's \<open>after\<close> is truthy, the counter (the limit, less 100 for every page fetched
  so far) is still positive, and the next request carries that \<open>after\<close> as its cursor;
  after the last page the \<open>after\<close> is null or empty, or the counter has run out. For
  an anonymous session the requests are all the exchanges of the traversal; for an
  authenticated session, whose fetch the loop then runs, they are its exchanges other than
  token grants. Against the mock of 100, 100 and 40 items with a limit of 1000 the
  traversal returns the 240 items in their order after exactly three requests, whose
  cursors are unset, the first page's and the second page's.
\<close>

theorem paginate_stops_by_page_count:
  fixes s :: "'s RedditAnon_scheme" and so :: "'t RedditOauth_scheme"
  shows "(paginate (RedditAnon_fetch srv) endpoint ps cb c s w = (Inr items, (c', s'), w') \<longrightarrow>
            take (length (trace w)) (trace w') = trace w
            \<and> walked (initial_limit ps) (added w w'))
         \<and> (paginate (RedditOauth_fetch srv) endpoint ps cb c so w = (Inr items, (c', so'), w') \<longrightarrow>
            take (length (trace w)) (trace w') = trace w
            \<and> walked (initial_limit ps) (requests w w'))
         \<and> fst (paginate (RedditAnon_fetch mock) hot (with_limit 1000) None () anon0 w0)
              = Inr [0..<240]
         \<and> map (cursor_of \<circ> sent)
              (trace (snd (snd (paginate (RedditAnon_fetch mock) hot (with_limit 1000) None () anon0 w0))))
              = [None, Some (PStr ''t3_a''), Some (PStr ''t3_b'')]
         \<and> map items_of
              (trace (snd (snd (paginate (RedditAnon_fetch mock) hot (with_limit 1000) None () anon0 w0))))
              = [[0..<100], [100..<200], [200..<240]]"
proof (intro conjI impI)
  assume a: "paginate (RedditAnon_fetch srv) endpoint ps cb c s w = (Inr items, (c', s'), w')"
  note W = paginate_walk[OF RedditAnon_fetch_fetches_pages a]
  show "take (length (trace w)) (trace w') = trace w" by (rule W(1))
  show "walked (initial_limit ps) (added w w')" using W(2,3) by simp
next
  assume a: "paginate (RedditOauth_fetch srv) endpoint ps cb c so w = (Inr items, (c', so'), w')"
  note W = paginate_walk[OF RedditOauth_fetch_fetches_pages a]
  show "take (length (trace w)) (trace w') = trace w" by (rule W(1))
  show "walked (initial_limit ps) (requests w w')" by (rule W(3))
next
  show "fst (paginate (RedditAnon_fetch mock) hot (with_limit 1000) None () anon0 w0)
          = Inr [0..<240]"
    by code_simp
next
  show "map (cursor_of \<circ> sent)
          (trace (snd (snd (paginate (RedditAnon_fetch mock) hot (with_limit 1000) None () anon0 w0))))
          = [None, Some (PStr ''t3_a''), Some (PStr ''t3_b'')]"
    by code_simp
next
  show "map items_of
          (trace (snd (snd (paginate (RedditAnon_fetch mock) hot (with_limit 1000) None () anon0 w0))))
          = [[0..<100], [100..<200], [200..<240]]"
    by code_simp
qed

text \<open>The anonymous session with a limit of 250, and the web session with a limit of
  1000 at 2000 ms, when its token has expired: its traversal makes a grant and then the
  three requests.\<close>

theorem paginate_stops_by_page_count_witness:
  "fst (paginate (RedditAnon_fetch mock) hot (with_limit 250) None () anon0 w0) = Inr [0..<240]
   \<and> take (length (trace w0))
        (trace (snd (snd (paginate (RedditAnon_fetch mock) hot (with_limit 250) None () anon0 w0))))
      = trace w0
   \<and> walked (initial_limit (with_limit 250))
        (added w0 (snd (snd (paginate (RedditAnon_fetch mock) hot (with_limit 250) None () anon0 w0))))
   \<and> fst (paginate (RedditOauth_fetch (granting None)) hot (with_limit 1000) None () web0 w_late)
      = Inr [0..<240]
   \<and> map (is_grant \<circ> sent)
        (trace (snd (snd (paginate (RedditOauth_fetch (granting None)) hot (with_limit 1000) None ()
           web0 w_late))))
      = [True, False, False, False]
   \<and> walked (initial_limit (with_limit 1000))
        (requests w_late (snd (snd (paginate (RedditOauth_fetch (granting None)) hot (with_limit 1000)
           None () web0 w_late))))"
proof -
  let ?run = "paginate (RedditAnon_fetch mock) hot (with_limit 250) None () anon0 w0"
  let ?auth = "paginate (RedditOauth_fetch (granting None)) hot (with_limit 1000) None () web0 w_late"
  have r: "fst ?run = Inr [0..<240]" by code_simp
  have ra: "fst ?auth = Inr [0..<240]" by code_simp
  have g: "map (is_grant \<circ> sent) (trace (snd (snd ?auth))) = [True, False, False, False]"
    by code_simp
  have "?run = (Inr [0..<240], (fst (fst (snd ?run)), snd (fst (snd ?run))), snd (snd ?run))"
    using r by (cases ?run) auto
  from paginate_stops_by_page_count[THEN conjunct1, rule_format, OF this]
  have t1: "take (length (trace w0)) (trace (snd (snd ?run))) = trace w0
            \<and> walked (initial_limit (with_limit 250)) (added w0 (snd (snd ?run)))" .
  have "?auth = (Inr [0..<240], (fst (fst (snd ?auth)), snd (fst (snd ?auth))), snd (snd ?auth))"
    using ra by (cases ?auth) auto
  from paginate_stops_by_page_count[THEN conjunct2, THEN conjunct1, rule_format, OF this]
  have t2: "walked (initial_limit (with_limit 1000)) (requests w_late (snd (snd ?auth)))"
    by blast
  from r ra g t1 t2 show ?thesis by blast
qed

text \<open>
  The specification's rule, stopping once the items accumulated have reached the limit, is
  not the loop's: against pages of 40 items with a limit of 100 the traversal stops after
  one request with 40 items, although that page has a cursor to the next.
\<close>

theorem paginate_by_count_counterexample:
  "fst (paginate (RedditAnon_fetch mock_short) hot (with_limit 100) None () anon0 w0) = Inr [0..<40]
   \<and> map page_of
        (trace (snd (snd (paginate (RedditAnon_fetch mock_short) hot (with_limit 100) None () anon0 w0))))
      = [Some ([0..<40], Some ''t3_a'')]
   \<and> \<not> walked_by_count 100 0
        (added w0 (snd (snd (paginate (RedditAnon_fetch mock_short) hot (with_limit 100) None () anon0 w0))))"
  by code_simp

text \<open>
  Claim C3. A traversal that returns gives back the items of every page it received,
  whole and in order, and has handed each page, whole, to the callback: the limit bears
  only on whether another page is requested. The pages are those of all the exchanges of
  the traversal for an anonymous session, and those of its exchanges other than token
  grants for an authenticated session. Against the mock of 100-item pages with a limit of
  150 exactly two requests are made, and the result holds every item of both pages, 200
  items in all.
\<close>

theorem paginate_keeps_whole_pages:
  fixes s :: "'s RedditAnon_scheme" and so :: "'t RedditOauth_scheme"
  shows "(paginate (RedditAnon_fetch srv) endpoint ps cb c s w = (Inr items, (c', s'), w') \<longrightarrow>
            items = concat (map items_of (added w w'))
            \<and> c' = (case cb of None \<Rightarrow> c
                     | Some f \<Rightarrow> fold (\<lambda>x. f (items_of x)) (added w w') c))
         \<and> (paginate (RedditOauth_fetch srv) endpoint ps cb c so w = (Inr items, (c', so'), w') \<longrightarrow>
            items = concat (map items_of (requests w w'))
            \<and> c' = (case cb of None \<Rightarrow> c
                     | Some f \<Rightarrow> fold (\<lambda>x. f (items_of x)) (requests w w') c))
         \<and> fst (paginate (RedditAnon_fetch mock) hot (with_limit 150) None () anon0 w0)
              = Inr ([0..<100] @ [100..<200])
         \<and> map items_of
              (trace (snd (snd (paginate (RedditAnon_fetch mock) hot (with_limit 150) None () anon0 w0))))
              = [[0..<100], [100..<200]]
         \<and> map (cursor_of \<circ> sent)
              (trace (snd (snd (paginate (RedditAnon_fetch mock) hot (with_limit 150) None () anon0 w0))))
              = [None, Some (PStr ''t3_a'')]
         \<and> 150 < length ([0..<100] @ [100..<200])"
proof (intro conjI impI)
  assume a: "paginate (RedditAnon_fetch srv) endpoint ps cb c s w = (Inr items, (c', s'), w')"
  note W = paginate_walk[OF RedditAnon_fetch_fetches_pages a]
  have e: "requests w w' = added w w'" using W(2) by simp
  show "items = concat (map items_of (added w w'))" using W(4) e by simp
  show "c' = (case cb of None \<Rightarrow> c | Some f \<Rightarrow> fold (\<lambda>x. f (items_of x)) (added w w') c)"
    using W(5) unfolding e .
next
  assume a: "paginate (RedditOauth_fetch srv) endpoint ps cb c so w = (Inr items, (c', so'), w')"
  note W = paginate_walk[OF RedditOauth_fetch_fetches_pages a]
  show "items = concat (map items_of (requests w w'))" by (rule W(4))
  show "c' = (case cb of None \<Rightarrow> c | Some f \<Rightarrow> fold (\<lambda>x. f (items_of x)) (requests w w') c)"
    by (rule W(5))
next
  show "fst (paginate (RedditAnon_fetch mock) hot (with_limit 150) None () anon0 w0)
          = Inr ([0..<100] @ [100..<200])"
    by code_simp
next
  show "map items_of
          (trace (snd (snd (paginate (RedditAnon_fetch mock) hot (with_limit 150) None () anon0 w0))))
          = [[0..<100], [100..<200]]"
    by code_simp
next
  show "map (cursor_of \<circ> sent)
          (trace (snd (snd (paginate (RedditAnon_fetch mock) hot (with_limit 150) None () anon0 w0))))
          = [None, Some (PStr ''t3_a'')]"
    by code_simp
next
  show "150 < length ([0..<100] @ [100..<200])" by simp
qed

text \<open>The same traversal with a callback that notes the size of each page it is given,
  on the anonymous session and, at 2000 ms, on the web session, which makes a grant
  first.\<close>

theorem paginate_keeps_whole_pages_witness:
  "fst (paginate (RedditAnon_fetch mock) hot (with_limit 150)
          (Some (\<lambda>page seen. seen @ [length page])) [] anon0 w0) = Inr [0..<200]
   \<and> concat (map items_of (added w0 (snd (snd (paginate (RedditAnon_fetch mock) hot (with_limit 150)
          (Some (\<lambda>page seen. seen @ [length page])) [] anon0 w0))))) = [0..<200]
   \<and> fst (fst (snd (paginate (RedditAnon_fetch mock) hot (with_limit 150)
          (Some (\<lambda>page seen. seen @ [length page])) [] anon0 w0))) = [100, 100]
   \<and> fst (paginate (RedditOauth_fetch (granting None)) hot (with_limit 150)
          (Some (\<lambda>page seen. seen @ [length page])) [] web0 w_late) = Inr [0..<200]
   \<and> length (added w_late (snd (snd (paginate (RedditOauth_fetch (granting None)) hot (with_limit 150)
          (Some (\<lambda>page seen. seen @ [length page])) [] web0 w_late)))) = 3
   \<and> concat (map items_of (requests w_late (snd (snd (paginate (RedditOauth_fetch (granting None)) hot
          (with_limit 150) (Some (\<lambda>page seen. seen @ [length page])) [] web0 w_late)))))
      = [0..<200]
   \<and> fst (fst (snd (paginate (RedditOauth_fetch (granting None)) hot (with_limit 150)
          (Some (\<lambda>page seen. seen @ [length page])) [] web0 w_late))) = [100, 100]"
proof -
  let ?cb = "Some (\<lambda>page seen. seen @ [length page]) :: (nat list \<Rightarrow> nat list \<Rightarrow> nat list) option"
  let ?run = "paginate (RedditAnon_fetch mock) hot (with_limit 150) ?cb [] anon0 w0"
  let ?auth = "paginate (RedditOauth_fetch (granting None)) hot (with_limit 150) ?cb [] web0 w_late"
  have r: "fst ?run = Inr [0..<200]" by code_simp
  have c: "fst (fst (snd ?run)) = [100, 100]" by code_simp
  have ra: "fst ?auth = Inr [0..<200]" by code_simp
  have ca: "fst (fst (snd ?auth)) = [100, 100]" by code_simp
  have la: "length (added w_late (snd (snd ?auth))) = 3" by code_simp
  have "?run = (Inr [0..<200], (fst (fst (snd ?run)), snd (fst (snd ?run))), snd (snd ?run))"
    using r by (cases ?run) auto
  from paginate_keeps_whole_pages[THEN conjunct1, rule_format, OF this]
  have t1: "concat (map items_of (added w0 (snd (snd ?run)))) = [0..<200]" by simp
  have "?auth = (Inr [0..<200], (fst (fst (snd ?auth)), snd (fst (snd ?auth))), snd (snd ?auth))"
    using ra by (cases ?auth) auto
  from paginate_keeps_whole_pages[THEN conjunct2, THEN conjunct1, rule_format, OF this]
  have t2: "concat (map items_of (requests w_late (snd (snd ?auth)))) = [0..<200]" by simp
  from r c ra ca la t1 t2 show ?thesis by blast
qed

subsection \<open>The factory\<close>

text \<open>
  Claim C10, as the code has it. \<open>Reddit.create\<close> without options returns an anonymous
  session, and so does an options object whose only key is \<open>userAgent\<close> when the user
  agent is a non-empty string. Every other options object that has neither a client
  identifier and secret together with a username and password or a refresh token, nor an
  access token, makes it throw \<open>TypeError("Missing credentials.")\<close>; a throw constructs
  no session. (A field counts as had when its value is truthy.)
\<close>

theorem create_anonymous_or_missing_credentials:
  "Reddit_create None t = Inr (Anon (new_RedditAnon None t))
   \<and> (keys_length opts = 1 \<and> truthy (val (opt_userAgent opts)) \<longrightarrow>
        Reddit_create (Some opts) t = Inr (Anon (new_RedditAnon (val (opt_userAgent opts)) t)))
   \<and> (\<not> (keys_length opts = 1 \<and> truthy (val (opt_userAgent opts)))
        \<and> \<not> (truthy (val (opt_clientId opts)) \<and> truthy (val (opt_clientSecret opts))
              \<and> (truthy (val (opt_username opts)) \<and> truthy (val (opt_password opts))
                   \<or> truthy (val (opt_refreshToken opts))))
        \<and> \<not> truthy (val (opt_accessToken opts)) \<longrightarrow>
        Reddit_create (Some opts) t = Inl (TypeError ''Missing credentials.''))"
  by (auto simp: Reddit_create_def)

theorem create_anonymous_or_missing_credentials_witness:
  "Reddit_create (Some (no_options\<lparr>opt_userAgent := Given (Some ''bot/1.0'')\<rparr>)) 1000
     = Inr (Anon (new_RedditAnon (Some ''bot/1.0'') 1000))
   \<and> Reddit_create (Some (no_options\<lparr>opt_clientId := Given (Some ''id''),
                                       opt_userAgent := Given (Some ''bot/1.0'')\<rparr>)) 1000
     = Inl (TypeError ''Missing credentials.'')"
  using create_anonymous_or_missing_credentials
          [of 1000 "no_options\<lparr>opt_userAgent := Given (Some ''bot/1.0'')\<rparr>"]
        create_anonymous_or_missing_credentials
          [of 1000 "no_options\<lparr>opt_clientId := Given (Some ''id''),
                               opt_userAgent := Given (Some ''bot/1.0'')\<rparr>"]
  by (simp add: keys_length_def no_options_def)

text \<open>An options object that holds only \<open>userAgent\<close>, with the empty string for it, is
  not given an anonymous session: the factory throws.\<close>

theorem create_empty_userAgent_counterexample:
  "keys_length (no_options\<lparr>opt_userAgent := Given (Some '''')\<rparr>) = 1
   \<and> opt_userAgent (no_options\<lparr>opt_userAgent := Given (Some '''')\<rparr>) = Given (Some '''')
   \<and> Reddit_create (Some (no_options\<lparr>opt_userAgent := Given (Some '''')\<rparr>)) 1000
       = Inl (TypeError ''Missing credentials.'')"
  by (simp add: Reddit_create_def keys_length_def no_options_def)

subsection \<open>The rate-limit gate\<close>

text \<open>The earlier client: a grant adds the grant request of the session, sent at once,
  when the session has one to make, and leaves the rate-limit fields alone.\<close>

lemma getOauthToken_added:
  assumes "getOauthToken srv True s w = (g, s1, w1)"
  shows "trace w1 = trace w @
           (case grant_request0 s of
              None \<Rightarrow> []
            | Some rq \<Rightarrow> [\<lparr>sent_at = now w, sent = rq, got = fst (srv (trace w) (now w) rq)\<rparr>])"
  using assms
  by (auto simp: getOauthToken_def grant_request0_def net_fetch_def Let_def
      split: appType_t.splits if_splits prod.splits reply.splits option.splits)


lemma fetch0_cases:
  assumes "fetch0 fl srv inp opts s w = (r, s', w')"
  obtains (broken) e where "stale0 s w = Inl e" and "r = Inl e" and "s' = s" and "w' = w"
  | (threw) e where "stale0 s w = Inr True" and "getOauthToken srv True s w = (Inl e, s', w')"
      and "r = Inl e"
  | (fresh) "stale0 s w = Inr False" and "request0 fl srv inp opts s w = (r, s', w')"
  | (granted) g s1 w1 where "stale0 s w = Inr True"
      and "getOauthToken srv True s w = (Inr g, s1, w1)"
      and "request0 fl srv inp opts s1 w1 = (r, s', w')"
  using assms
  by (auto simp: fetch0_def split: if_splits prod.splits sum.splits)

lemma trace_wait0: "trace (wait0 fl s w) = trace w"
  by (simp add: wait0_def trace_setTimeout)

text \<open>The earlier fetch from its wait on sends one request, which is no grant, when the
  wait is over, unless the session holds no token.\<close>

lemma request0_added:
  assumes "request0 fl srv inp opts s w = (r, s', w')"
  shows "\<exists>xs. trace w' = trace w @ xs \<and> length xs \<le> 1
           \<and> (\<forall>x\<in>set xs. \<not> is_grant (sent x) \<and> sent_at x = now (wait0 fl s w))
           \<and> (\<forall>t. token0 s = Some t \<longrightarrow>
                 map sent xs = [\<lparr>req_url = url0 inp, req_init = bearer (accessToken t) opts\<rparr>])"
    and "token0 s' = token0 s"
  using assms
  by (auto simp: request0_def net_fetch_def trace_wait0 not_is_grant_bearer Let_def
      split: option.splits prod.splits reply.splits if_splits)







subsection \<open>Responses without usable rate-limit headers\<close>






lemma grant_of_fetch_is_grant:
  fixes s :: "'s RedditOauth_scheme"
  assumes gs: "gs = (if token_stale s w
                   then (case grant_request s of
                           None \<Rightarrow> []
                         | Some rq \<Rightarrow> [\<lparr>sent_at = now w, sent = rq,
                                          got = fst (srv (trace w) (now w) rq)\<rparr>])
                   else [])"
  shows "\<forall>x\<in>set gs. is_grant (sent x)"
proof (cases "grant_request s")
  case None
  have "gs = []" using gs None by (simp split: if_splits)
  then show ?thesis by simp
next
  case (Some rq)
  have "gs = [] \<or> gs = [\<lparr>sent_at = now w, sent = rq, got = fst (srv (trace w) (now w) rq)\<rparr>]"
    using gs Some by (simp split: if_splits)
  then show ?thesis using is_grant_grant_request[OF Some] by auto
qed






subsection \<open>A web session without a refresh token\<close>

lemma expired_web_no_listener:
  fixes s :: "'s RedditOauth_scheme"
  assumes "appType s = Some Web" and "token_stale s w" and "\<not> truthy (refresh (token s))"
    and "\<not> errorListener s"
  shows "RedditOauth_fetch srv inp opts s w = (Inl (Error expired_msg), s, w)"
  using assms
  by (simp add: RedditOauth_fetch_def getNewToken_def emit_error_def expired_msg_def)

lemma expired_web_listener:
  fixes s :: "'s RedditOauth_scheme"
  assumes "appType s = Some Web" and "token_stale s w" and "\<not> truthy (refresh (token s))"
    and "errorListener s"
  shows "RedditOauth_fetch srv inp opts s w =
           RedditAnon_fetch srv inp (bearer (access (token s)) opts)
             (s\<lparr>received := received s @ [ErrorEvent (Error expired_msg)]\<rparr>) w"
  using assms
  by (simp add: RedditOauth_fetch_def getNewToken_def emit_error_def expired_msg_def)

text \<open>
  Claim C7, as the code has it. On a web session whose token is expired and which holds no
  refresh token, a fetch makes no grant and emits an \<open>error\<close> event with the message
  that a refresh token was expected. With no listener for the event the emitter throws the
  error at the call: the fetch fails with it and sends nothing. With a listener the error
  goes to the listener only, and the fetch goes on to send its request with the access
  token it holds.
\<close>

theorem expired_web_without_refresh_emits:
  fixes s :: "'s RedditOauth_scheme"
  shows "(appType s = Some Web \<and> token_stale s w \<and> \<not> truthy (refresh (token s))
            \<and> \<not> errorListener s
          \<longrightarrow> RedditOauth_fetch srv inp opts s w = (Inl (Error expired_msg), s, w))
       \<and> (appType s = Some Web \<and> token_stale s w \<and> \<not> truthy (refresh (token s))
            \<and> errorListener s
          \<longrightarrow> RedditOauth_fetch srv inp opts s w =
                RedditAnon_fetch srv inp (bearer (access (token s)) opts)
                  (s\<lparr>received := received s @ [ErrorEvent (Error expired_msg)]\<rparr>) w)"
  using expired_web_no_listener[of s w srv inp opts] expired_web_listener[of s w srv inp opts]
  by blast

theorem expired_web_without_refresh_emits_witness:
  "RedditOauth_fetch (granting None) me no_init web_no_refresh w_late
     = (Inl (Error expired_msg), web_no_refresh, w_late)
   \<and> RedditOauth_fetch (granting None) me no_init (on_error web_no_refresh) w_late
     = RedditAnon_fetch (granting None) me (bearer (Some ''a0'') no_init)
         ((on_error web_no_refresh)\<lparr>received := [ErrorEvent (Error expired_msg)]\<rparr>) w_late"
proof -
  have a: "appType web_no_refresh = Some Web \<and> token_stale web_no_refresh w_late
        \<and> \<not> truthy (refresh (token web_no_refresh)) \<and> \<not> errorListener web_no_refresh"
    by (simp add: web_no_refresh_def web0_def web_init_def no_options_def new_RedditOauth_def
          setToken_def token_stale_def w_late_def)
  have b: "appType (on_error web_no_refresh) = Some Web \<and> token_stale (on_error web_no_refresh) w_late
        \<and> \<not> truthy (refresh (token (on_error web_no_refresh)))
        \<and> errorListener (on_error web_no_refresh)"
    by (simp add: web_no_refresh_def web0_def web_init_def no_options_def new_RedditOauth_def
          setToken_def token_stale_def w_late_def on_error_def)
  have c: "access (token (on_error web_no_refresh)) = Some ''a0''"
          "received (on_error web_no_refresh) = []"
    by (simp_all add: web_no_refresh_def web0_def new_RedditOauth_def setToken_def on_error_def)
  from expired_web_without_refresh_emits[THEN conjunct1, THEN mp, OF a]
       expired_web_without_refresh_emits[THEN conjunct2, THEN mp, OF b] c
  show ?thesis by simp
qed

text \<open>With a listener for the \<open>error\<close> event the fetch does not fail: it returns the
  endpoint's listing, after one request that is no grant, and the error has gone to the
  listener.\<close>

theorem expired_web_listener_counterexample:
  "fst (RedditOauth_fetch (granting None) me no_init (on_error web_no_refresh) w_late)
     = Inr (Listing_body page1 (Some ''t3_a''))
   \<and> map (is_grant \<circ> sent)
        (trace (snd (snd (RedditOauth_fetch (granting None) me no_init (on_error web_no_refresh) w_late))))
     = [False]
   \<and> received (fst (snd (RedditOauth_fetch (granting None) me no_init (on_error web_no_refresh) w_late)))
     = [ErrorEvent (Error ''Access token expired; excpected a refresh token.'')]"
  by code_simp

subsection \<open>A grant that the token endpoint refuses\<close>

lemma emit_error_result:
  "emit_error err s w =
     (if errorListener s
      then (Inr (Emitted True), s\<lparr>received := received s @ [ErrorEvent (Error err)]\<rparr>, w)
      else (Inl (Error err), s, w))"
  by (simp add: emit_error_def)

lemma getNewToken_error_body:
  fixes s :: "'s RedditOauth_scheme"
  assumes g: "getNewToken srv s w = (g, s1, w1)"
    and n: "added w w1 \<noteq> []"
    and r: "got (last (trace w1)) = Response res" and p: "payload res = Error_body err"
  shows "token s1 = token s \<and> length (added w w1) = 1
         \<and> (if errorListener s
            then g = Inr (Emitted True) \<and> received s1 = received s @ [ErrorEvent (Error err)]
            else g = Inl (Error err) \<and> s1 = s)"
proof -
  have tail: "token s1 = token s \<and> length (added w w1) = 1
         \<and> (if errorListener s
            then g = Inr (Emitted True) \<and> received s1 = received s @ [ErrorEvent (Error err)]
            else g = Inl (Error err) \<and> s1 = s)"
    if nf: "net_fetch srv rq w = (rp, w2)" and w2: "w1 = w2"
      and e: "rp = Response res \<Longrightarrow> (g, s1, w1) = emit_error err s w2"
    for rq rp w2
  proof -
    have tr: "trace w1 = trace w @ [\<lparr>sent_at = now w, sent = rq, got = rp\<rparr>]"
      using net_fetch_result(1)[OF nf] w2 by simp
    then have "rp = Response res" using r by simp
    from e[OF this] tr show ?thesis
      by (auto simp: emit_error_result added_def split: if_splits)
  qed
  show ?thesis
  proof (cases "appType s")
    case None
    with g n show ?thesis by (simp add: getNewToken_def added_def)
  next
    case (Some tp)
    show ?thesis
    proof (cases tp)
      case Web
      show ?thesis
      proof (cases "truthy (refresh (token s))")
        case False
        with g n Some Web show ?thesis
          by (auto simp: getNewToken_def emit_error_result added_def split: if_splits)
      next
        case True
        let ?rq = "token_request (template (id' s) @ '':'' @ template (secret s))
                       [(''grant_type'', ''refresh_token''),
                        (''refresh_token'', template (refresh (token s)))]"
        obtain rp w2 where nf: "net_fetch srv ?rq w = (rp, w2)"
          by (cases "net_fetch srv ?rq w") auto
        have w2: "w1 = w2"
          using g Some Web True nf
          by (auto simp: getNewToken_def emit_error_result Let_def
              split: reply.splits if_splits option.splits)
        have e: "(g, s1, w1) = emit_error err s w2" if "rp = Response res"
          using g Some Web True nf that p
          by (simp add: getNewToken_def Let_def)
        from tail[OF nf w2 e] show ?thesis .
      qed
    next
      case Script
      show ?thesis
      proof (cases "truthy (username s) \<and> truthy (password s)")
        case False
        with g n Some Script show ?thesis
          by (auto simp: getNewToken_def added_def split: if_splits)
      next
        case True
        let ?rq = "token_request (template (id' s) @ '':'' @ template (secret s))
                       [(''grant_type'', ''password''),
                        (''username'', template (username s)),
                        (''password'', template (password s))]"
        obtain rp w2 where nf: "net_fetch srv ?rq w = (rp, w2)"
          by (cases "net_fetch srv ?rq w") auto
        have w2: "w1 = w2"
          using g Some Script True nf
          by (auto simp: getNewToken_def emit_error_result Let_def
              split: reply.splits if_splits option.splits)
        have e: "(g, s1, w1) = emit_error err s w2" if "rp = Response res"
          using g Some Script True nf that p
          by (simp add: getNewToken_def Let_def)
        from tail[OF nf w2 e] show ?thesis .
      qed
    qed
  qed
qed

lemma getOauthToken_error_body:
  assumes g: "getOauthToken srv rfr s w = (g, s1, w1)"
    and n: "added w w1 \<noteq> []"
    and r: "got (last (trace w1)) = Response res" and p: "payload res = Error_body err"
  shows "g = Inl (Error err)" and "s1 = s" and "length (added w w1) = 1"
  using assms
  by (auto simp: getOauthToken_def net_fetch_def added_def Let_def
      split: option.splits appType_t.splits if_splits prod.splits reply.splits)

lemma RedditOauth_fetch_grant_threw:
  "token_stale s w \<Longrightarrow> getNewToken srv s w = (Inl e, s1, w1) \<Longrightarrow>
   RedditOauth_fetch srv inp opts s w = (Inl e, s1, w1)"
  by (simp add: RedditOauth_fetch_def)

lemma RedditOauth_fetch_grant_returned:
  "token_stale s w \<Longrightarrow> getNewToken srv s w = (Inr g, s1, w1) \<Longrightarrow>
   RedditOauth_fetch srv inp opts s w =
     RedditAnon_fetch srv inp (bearer (access (token s1)) opts) s1 w1"
  by (simp add: RedditOauth_fetch_def)

lemma fetch0_grant_threw:
  "stale0 s w = Inr True \<Longrightarrow> getOauthToken srv True s w = (Inl e, s1, w1) \<Longrightarrow>
   fetch0 fl srv inp opts s w = (Inl e, s1, w1)"
  by (simp add: fetch0_def)

text \<open>
  Claim C6, as the code has it. When the response to a grant or refresh has an \<open>error\<close>
  field, one grant request has been made and no more, and the token is left as it was.
  \<open>getNewToken\<close> emits the field as an \<open>error\<close> event: with no listener the emitter
  throws it and the fetch that asked for the token fails with it at the call; with a
  listener the error goes to the listener and the fetch goes on to send its request with
  the token it holds. The earlier client throws the error from \<open>getOauthToken\<close>, and
  its fetch fails with it. A script session that the factory built, fetching for the first
  time from an endpoint that refuses its grant, fails with the endpoint's error after the
  one grant request, and its token has no field set, as when it was built.
\<close>

theorem refused_grant_is_emitted:
  fixes s :: "'s RedditOauth_scheme"
  shows "(getNewToken srv s w = (g, s1, w1) \<and> added w w1 \<noteq> []
            \<and> got (last (trace w1)) = Response res \<and> payload res = Error_body err
          \<longrightarrow> token s1 = token s \<and> length (added w w1) = 1
              \<and> (if errorListener s
                  then g = Inr (Emitted True)
                       \<and> received s1 = received s @ [ErrorEvent (Error err)]
                  else g = Inl (Error err) \<and> s1 = s))
       \<and> (token_stale s w \<and> getNewToken srv s w = (Inl e, s1, w1)
          \<longrightarrow> RedditOauth_fetch srv inp opts s w = (Inl e, s1, w1))
       \<and> (token_stale s w \<and> getNewToken srv s w = (Inr g', s1, w1)
          \<longrightarrow> RedditOauth_fetch srv inp opts s w =
                RedditAnon_fetch srv inp (bearer (access (token s1)) opts) s1 w1)
       \<and> (getOauthToken srv rfr s0 w = (g0, s01, w1) \<and> added w w1 \<noteq> []
            \<and> got (last (trace w1)) = Response res \<and> payload res = Error_body err
          \<longrightarrow> g0 = Inl (Error err) \<and> s01 = s0 \<and> length (added w w1) = 1)
       \<and> (stale0 s0 w = Inr True \<and> getOauthToken srv True s0 w = (Inl e, s01, w1)
          \<longrightarrow> fetch0 fl srv inp opts s0 w = (Inl e, s01, w1))
       \<and> Reddit_create (Some script_init) 1000 = Inr (Oauth script0)
       \<and> fst (RedditOauth_fetch denying me no_init script0 w0) = Inl (Error ''invalid_grant'')
       \<and> map (is_grant \<circ> sent) (trace (snd (snd (RedditOauth_fetch denying me no_init script0 w0))))
           = [True]
       \<and> token (fst (snd (RedditOauth_fetch denying me no_init script0 w0)))
           = \<lparr>access = None, refresh = None, expiry = None, scopes = None\<rparr>"
proof (intro conjI impI)
  assume a: "getNewToken srv s w = (g, s1, w1) \<and> added w w1 \<noteq> []
            \<and> got (last (trace w1)) = Response res \<and> payload res = Error_body err"
  then have b: "token s1 = token s \<and> length (added w w1) = 1
         \<and> (if errorListener s
            then g = Inr (Emitted True) \<and> received s1 = received s @ [ErrorEvent (Error err)]
            else g = Inl (Error err) \<and> s1 = s)"
    using getNewToken_error_body[of srv s w g s1 w1 res err] by blast
  from b show "token s1 = token s" by blast
  from b show "length (added w w1) = 1" by blast
  from b show "if errorListener s
                  then g = Inr (Emitted True)
                       \<and> received s1 = received s @ [ErrorEvent (Error err)]
                  else g = Inl (Error err) \<and> s1 = s"
    by blast
next
  assume "token_stale s w \<and> getNewToken srv s w = (Inl e, s1, w1)"
  then show "RedditOauth_fetch srv inp opts s w = (Inl e, s1, w1)"
    using RedditOauth_fetch_grant_threw by blast
next
  assume "token_stale s w \<and> getNewToken srv s w = (Inr g', s1, w1)"
  then show "RedditOauth_fetch srv inp opts s w =
                RedditAnon_fetch srv inp (bearer (access (token s1)) opts) s1 w1"
    using RedditOauth_fetch_grant_returned by blast
next
  assume a: "getOauthToken srv rfr s0 w = (g0, s01, w1) \<and> added w w1 \<noteq> []
            \<and> got (last (trace w1)) = Response res \<and> payload res = Error_body err"
  then show "g0 = Inl (Error err)" "s01 = s0" "length (added w w1) = 1"
    using getOauthToken_error_body[of srv rfr s0 w g0 s01 w1 res err] by blast+
next
  assume "stale0 s0 w = Inr True \<and> getOauthToken srv True s0 w = (Inl e, s01, w1)"
  then show "fetch0 fl srv inp opts s0 w = (Inl e, s01, w1)"
    using fetch0_grant_threw by blast
next
  show "Reddit_create (Some script_init) 1000 = Inr (Oauth script0)"
    by (simp add: Reddit_create_def script_init_def no_options_def script0_def keys_length_def)
next
  show "fst (RedditOauth_fetch denying me no_init script0 w0) = Inl (Error ''invalid_grant'')"
    by code_simp
next
  show "map (is_grant \<circ> sent) (trace (snd (snd (RedditOauth_fetch denying me no_init script0 w0))))
           = [True]"
    by code_simp
next
  show "token (fst (snd (RedditOauth_fetch denying me no_init script0 w0)))
           = \<lparr>access = None, refresh = None, expiry = None, scopes = None\<rparr>"
    by code_simp
qed

text \<open>The same script session with a listener for the \<open>error\<close> event: the refused
  grant reaches the listener, the token stays without fields, and the fetch goes on.\<close>

theorem refused_grant_is_emitted_witness:
  "token (fst (snd (getNewToken denying (on_error script0) w0))) = token (on_error script0)
   \<and> length (added w0 (snd (snd (getNewToken denying (on_error script0) w0)))) = 1
   \<and> fst (getNewToken denying (on_error script0) w0) = Inr (Emitted True)
   \<and> received (fst (snd (getNewToken denying (on_error script0) w0)))
       = [ErrorEvent (Error ''invalid_grant'')]
   \<and> fst (getOauthToken denying False script00 w0) = Inl (Error ''invalid_grant'')
   \<and> fst (snd (getOauthToken denying False script00 w0)) = script00"
proof -
  let ?g = "getNewToken denying (on_error script0) w0"
  let ?res = "\<lparr>ok = True, status = 200, statusText = ''OK'',
               x_ratelimit_remaining = NoHeader, x_ratelimit_reset = NoHeader,
               payload = Error_body ''invalid_grant''\<rparr> :: nat response"
  have a: "?g = (fst ?g, fst (snd ?g), snd (snd ?g)) \<and> added w0 (snd (snd ?g)) \<noteq> []
           \<and> got (last (trace (snd (snd ?g)))) = Response ?res
           \<and> payload ?res = Error_body ''invalid_grant''"
    by code_simp
  let ?l = "getOauthToken denying False script00 w0"
  have b: "?l = (fst ?l, fst (snd ?l), snd (snd ?l)) \<and> added w0 (snd (snd ?l)) \<noteq> []
           \<and> got (last (trace (snd (snd ?l)))) = Response ?res
           \<and> payload ?res = Error_body ''invalid_grant''"
    by code_simp
  have l: "errorListener (on_error script0)" "received (on_error script0) = []"
    by (simp_all add: on_error_def script0_def new_RedditOauth_def)
  from refused_grant_is_emitted[THEN conjunct1, THEN mp, OF a]
       refused_grant_is_emitted[THEN conjunct2, THEN conjunct2, THEN conjunct2, THEN conjunct1,
         THEN mp, OF b] l
  show ?thesis by simp
qed

text \<open>With the listener the first fetch of that session does not fail: after the refused
  grant it sends its request, with \<open>bearer undefined\<close> as the token, and returns the
  endpoint's listing.\<close>

theorem refused_grant_listener_counterexample:
  "fst (RedditOauth_fetch denying me no_init (on_error script0) w0)
     = Inr (Listing_body page1 (Some ''t3_a''))
   \<and> map (\<lambda>x. map_of (headers (req_init (sent x))) ''Authorization'')
        (trace (snd (snd (RedditOauth_fetch denying me no_init (on_error script0) w0))))
     = [Some (Basic ''id:secret''), Some (Plain ''bearer undefined'')]
   \<and> received (fst (snd (RedditOauth_fetch denying me no_init (on_error script0) w0)))
     = [ErrorEvent (Error ''invalid_grant'')]"
  by code_simp

subsection \<open>The refresh token across grants\<close>

lemma getNewToken_web_refresh:
  fixes s :: "'s RedditOauth_scheme"
  assumes "appType s = Some Web" and "getNewToken srv s w = (g, s1, w1)"
  shows "refresh (token s1) = refresh (token s)" and "appType s1 = Some Web"
  using assms
  by (auto simp: getNewToken_def emit_error_def setToken_def Let_def
      split: if_splits prod.splits reply.splits option.splits)

lemma getNewToken_web_granted:
  fixes s :: "'s RedditOauth_scheme"
  assumes "appType s = Some Web" and "getNewToken srv s w = (Inr (Body j), s1, w1)"
  shows "access (token s1) = access_of j" and "expiry (token s1) = Some (expiry_of j (now w1))"
  using assms
  by (auto simp: getNewToken_def emit_error_def setToken_def Let_def
      split: if_splits prod.splits reply.splits option.splits)

lemma RedditOauth_fetch_web_refresh:
  fixes s :: "'s RedditOauth_scheme"
  assumes a: "appType s = Some Web" and f: "RedditOauth_fetch srv inp opts s w = (r, s', w')"
  shows "refresh (token s') = refresh (token s) \<and> appType s' = Some Web"
  using f
proof (cases rule: RedditOauth_fetch_cases)
  case (threw e)
  from getNewToken_web_refresh[OF a threw(2)] show ?thesis by simp
next
  case fresh
  from RedditAnon_fetch_more[OF fresh(2)] a show ?thesis by simp
next
  case (granted g s1 w1)
  from getNewToken_web_refresh[OF a granted(2)] RedditAnon_fetch_more[OF granted(3)]
  show ?thesis by simp
qed

lemma getOauthToken_web_granted:
  assumes "appType0 s = Web" and "getOauthToken srv rfr s w = (Inr (Body j), s1, w1)"
  shows "held_refreshToken s1 = refresh_of j"
  using assms
  by (auto simp: getOauthToken_def setToken0_def emit_tokenRefreshed_def held_refreshToken_def
        Let_def
      split: if_splits prod.splits reply.splits option.splits)

text \<open>
  Claim C9, for the session that the factory builds. After a refresh grant that returned a
  token body, the token of a web session keeps the refresh token it held before, while
  its access token is the granted one and its expiry is the date made of the arrival time
  of the response plus the granted lifetime, an invalid date when that is beyond the range
  of dates: the refresh token of the response is not read. So no fetch of
  a web session changes its refresh token. The earlier client instead stores the refresh
  token of the response.
\<close>

theorem refresh_grant_keeps_refresh_token:
  fixes s :: "'s RedditOauth_scheme"
  shows "(appType s = Some Web \<and> getNewToken srv s w = (Inr (Body (Token_body b)), s1, w1)
          \<longrightarrow> refresh (token s1) = refresh (token s)
              \<and> access (token s1) = Some (access_token b)
              \<and> expiry (token s1) = Some (new_Date (now w1 + expires_in b * 1000)))
       \<and> (appType s = Some Web \<and> RedditOauth_fetch srv inp opts s w = (r, s', w')
          \<longrightarrow> refresh (token s') = refresh (token s) \<and> appType s' = Some Web)
       \<and> (appType0 s0 = Web \<and> getOauthToken srv rfr s0 w = (Inr (Body (Token_body b)), s01, w1)
          \<longrightarrow> held_refreshToken s01 = refresh_token b)"
proof (intro conjI impI)
  assume a: "appType s = Some Web \<and> getNewToken srv s w = (Inr (Body (Token_body b)), s1, w1)"
  then show "refresh (token s1) = refresh (token s)"
    using getNewToken_web_refresh(1) by blast
  from a show "access (token s1) = Some (access_token b)"
    using getNewToken_web_granted(1)[of s srv w "Token_body b" s1 w1] by simp
  from a show "expiry (token s1) = Some (new_Date (now w1 + expires_in b * 1000))"
    using getNewToken_web_granted(2)[of s srv w "Token_body b" s1 w1] by simp
next
  assume a: "appType s = Some Web \<and> RedditOauth_fetch srv inp opts s w = (r, s', w')"
  then show "refresh (token s') = refresh (token s)"
    using RedditOauth_fetch_web_refresh by blast
  from a show "appType s' = Some Web"
    using RedditOauth_fetch_web_refresh by blast
next
  assume "appType0 s0 = Web \<and> getOauthToken srv rfr s0 w = (Inr (Body (Token_body b)), s01, w1)"
  then show "held_refreshToken s01 = refresh_token b"
    using getOauthToken_web_granted[of s0 srv rfr w "Token_body b" s01 w1] by simp
qed

text \<open>A web session built with the refresh token \<open>r0\<close> and a token that expired at
  1000 ms refreshes at 2000 ms; the response, there at 2050 ms, grants \<open>fresh\<close> for an
  hour and carries a refresh token \<open>r1\<close>. The session keeps \<open>r0\<close>.\<close>

theorem refresh_grant_keeps_refresh_token_witness:
  "refresh (token web0) = Some ''r0''
   \<and> token (fst (snd (getNewToken (granting (Some ''r1'')) web0 w_late)))
       = \<lparr>access = Some ''fresh'', refresh = Some ''r0'',
          expiry = Some (Fin (2050 + 3600 * 1000)), scopes = None\<rparr>
   \<and> refresh (token (fst (snd (RedditOauth_fetch (granting (Some ''r1'')) me no_init web0 w_late))))
       = Some ''r0''
   \<and> held_refreshToken (fst (snd (getOauthToken (granting (Some ''r1'')) True web00 w_late)))
       = Some ''r1''"
proof -
  let ?g = "getNewToken (granting (Some ''r1'')) web0 w_late"
  let ?f = "RedditOauth_fetch (granting (Some ''r1'')) me no_init web0 w_late"
  let ?l = "getOauthToken (granting (Some ''r1'')) True web00 w_late"
  have w: "appType web0 = Some Web" "refresh (token web0) = Some ''r0''"
    by (simp_all add: web0_def web_init_def no_options_def new_RedditOauth_def)
  have "fst ?g = Inr (Body (Token_body (granted_body (Some ''r1''))))" by code_simp
  then have a: "appType web0 = Some Web
      \<and> ?g = (Inr (Body (Token_body (granted_body (Some ''r1'')))), fst (snd ?g), snd (snd ?g))"
    using w by (cases ?g) auto
  have n: "now (snd (snd ?g)) = 2050" by code_simp
  have sc: "scopes (token (fst (snd ?g))) = None" by code_simp
  have b: "appType web0 = Some Web \<and> ?f = (fst ?f, fst (snd ?f), snd (snd ?f))"
    using w by simp
  have "fst ?l = Inr (Body (Token_body (granted_body (Some ''r1''))))" by code_simp
  then have c: "appType0 web00 = Web
      \<and> ?l = (Inr (Body (Token_body (granted_body (Some ''r1'')))), fst (snd ?l), snd (snd ?l))"
    by (cases ?l) (auto simp: web00_def setToken0_def new_RedditOauth0_def)
  note T = refresh_grant_keeps_refresh_token
  from T[THEN conjunct1, THEN mp, OF a] w n sc
  have t1: "token (fst (snd ?g))
       = \<lparr>access = Some ''fresh'', refresh = Some ''r0'',
          expiry = Some (Fin (2050 + 3600 * 1000)), scopes = None\<rparr>"
    by (simp add: granted_body_def new_Date_def BetterToken.equality)
  from T[THEN conjunct2, THEN conjunct1, THEN mp, OF b] w
  have t2: "refresh (token (fst (snd ?f))) = Some ''r0''" by simp
  from T[THEN conjunct2, THEN conjunct2, THEN mp, OF c]
  have t3: "held_refreshToken (fst (snd ?l)) = Some ''r1''"
    by (simp add: granted_body_def)
  from w(2) t1 t2 t3 show ?thesis by blast
qed

text \<open>The earlier client in the same situation takes the refresh token of the response,
  and is left without a refresh token when the response has none.\<close>

theorem earlier_client_refresh_counterexample:
  "held_refreshToken web00 = Some ''r0''
   \<and> fst (getOauthToken (granting (Some ''r1'')) True web00 w_late)
       = Inr (Body (Token_body (granted_body (Some ''r1''))))
   \<and> held_refreshToken (fst (snd (getOauthToken (granting (Some ''r1'')) True web00 w_late)))
       = Some ''r1''
   \<and> held_refreshToken (fst (snd (fetch0 exact_delay (granting None) me no_init web00 w_late))) = None"
  by code_simp

subsection \<open>The token of a request\<close>

lemma token_stale_iff:
  "token_stale s w \<longleftrightarrow>
     expiry (token s) = None \<or> (\<exists>e. expiry (token s) = Some (Fin e) \<and> e < now w)"
proof (cases "expiry (token s)")
  case None
  then show ?thesis by (simp add: token_stale_def)
next
  case (Some x)
  then show ?thesis by (cases x) (simp_all add: token_stale_def)
qed

lemma stale0_iff:
  "stale0 s w = Inr True \<longleftrightarrow>
     token0 s = None \<or> (\<exists>t e. token0 s = Some t \<and> expiry0 t = Some (Fin e) \<and> e < now w)"
proof (cases "token0 s")
  case None
  then show ?thesis by (simp add: stale0_def)
next
  case (Some t)
  show ?thesis
  proof (cases "expiry0 t")
    case None
    with Some show ?thesis by (simp add: stale0_def)
  next
    case (Some x)
    with \<open>token0 s = Some t\<close> show ?thesis by (cases x) (simp_all add: stale0_def)
  qed
qed

lemma grants_append: "grants (xs @ ys) = grants xs + grants ys"
  by (simp add: grants_def)

lemma grants_none: "\<forall>x\<in>set xs. \<not> is_grant (sent x) \<Longrightarrow> grants xs = 0"
  by (induction xs) (simp_all add: grants_def)

text \<open>A fetch of the authenticated session makes a grant request exactly when it finds
  the token stale and the session has a grant to ask for; the request is sent at the
  call.\<close>

lemma RedditOauth_fetch_grants:
  fixes s :: "'s RedditOauth_scheme"
  assumes f: "RedditOauth_fetch srv inp opts s w = (r, s', w')"
  shows "grants (added w w') = (if token_stale s w \<and> grant_request s \<noteq> None then 1 else 0)"
    and "\<forall>x\<in>set (added w w'). is_grant (sent x) \<longrightarrow>
           sent_at x = now w \<and> grant_request s = Some (sent x)"
proof -
  from RedditOauth_fetch_added[OF f] obtain gs xs where
    a: "trace w' = trace w @ gs @ xs"
    and gs: "gs = (if token_stale s w
                   then (case grant_request s of
                           None \<Rightarrow> []
                         | Some rq \<Rightarrow> [\<lparr>sent_at = now w, sent = rq,
                                          got = fst (srv (trace w) (now w) rq)\<rparr>])
                   else [])"
    and xs: "\<forall>x\<in>set xs. \<not> is_grant (sent x)"
    by blast
  have ad: "added w w' = gs @ xs" using a by (simp add: added_def)
  have g: "\<forall>x\<in>set gs. is_grant (sent x)"
    by (rule grant_of_fetch_is_grant[where srv = srv and s = s and w = w, OF gs])
  have "grants gs = length gs" using g by (induction gs) (simp_all add: grants_def)
  moreover have "length gs = (if token_stale s w \<and> grant_request s \<noteq> None then 1 else 0)"
    using gs by (cases "grant_request s") simp_all
  ultimately show "grants (added w w')
                     = (if token_stale s w \<and> grant_request s \<noteq> None then 1 else 0)"
    using grants_none[OF xs] by (simp add: ad grants_append)
  have "gs = [] \<or> (\<exists>rq. grant_request s = Some rq
           \<and> gs = [\<lparr>sent_at = now w, sent = rq, got = fst (srv (trace w) (now w) rq)\<rparr>])"
    using gs by (cases "grant_request s") (simp_all split: if_splits)
  then have "\<forall>x\<in>set gs. sent_at x = now w \<and> grant_request s = Some (sent x)"
    by auto
  with xs show "\<forall>x\<in>set (added w w'). is_grant (sent x) \<longrightarrow>
                  sent_at x = now w \<and> grant_request s = Some (sent x)"
    by (auto simp: ad)
qed

text \<open>The earlier client likewise, by its own test.\<close>

lemma fetch0_grants:
  assumes f: "fetch0 fl srv inp opts s w = (r, s', w')"
  shows "grants (added w w')
           = (if stale0 s w = Inr True \<and> grant_request0 s \<noteq> None then 1 else 0)"
    and "\<forall>x\<in>set (added w w'). is_grant (sent x) \<longrightarrow>
           sent_at x = now w \<and> grant_request0 s = Some (sent x)"
proof -
  define gs where "gs = (case grant_request0 s of
               None \<Rightarrow> []
             | Some rq \<Rightarrow> [\<lparr>sent_at = now w, sent = rq, got = fst (srv (trace w) (now w) rq)\<rparr>])"
  have gs_cases: "(grant_request0 s = None \<and> gs = [])
      \<or> (\<exists>rq. grant_request0 s = Some rq \<and> is_grant rq
             \<and> gs = [\<lparr>sent_at = now w, sent = rq, got = fst (srv (trace w) (now w) rq)\<rparr>])"
  proof (cases "grant_request0 s")
    case None
    then show ?thesis by (simp add: gs_def)
  next
    case (Some rq)
    with is_grant_grant_request0[OF Some] show ?thesis by (simp add: gs_def)
  qed
  then have g: "\<forall>x\<in>set gs. is_grant (sent x) \<and> sent_at x = now w
                   \<and> grant_request0 s = Some (sent x)"
    by auto
  have gn: "grants gs = (if grant_request0 s \<noteq> None then 1 else 0)"
    using gs_cases by (auto simp: grants_def)
  have both: "grants (added w w')
           = (if stale0 s w = Inr True \<and> grant_request0 s \<noteq> None then 1 else 0)
         \<and> (\<forall>x\<in>set (added w w'). is_grant (sent x) \<longrightarrow>
               sent_at x = now w \<and> grant_request0 s = Some (sent x))"
    using f
  proof (cases rule: fetch0_cases)
    case (broken e)
    then show ?thesis by (simp add: added_def grants_def)
  next
    case (threw e)
    from getOauthToken_added[OF threw(2)] have "added w w' = gs" by (simp add: added_def gs_def)
    with threw(1) g gn show ?thesis by simp
  next
    case fresh
    from request0_added(1)[OF fresh(2)] obtain xs where
      xs: "trace w' = trace w @ xs" "\<forall>x\<in>set xs. \<not> is_grant (sent x)" by auto
    with fresh(1) grants_none[OF xs(2)] show ?thesis by (simp add: added_def)
  next
    case (granted q s1 w1)
    from request0_added(1)[OF granted(3)] obtain xs where
      xs: "trace w' = trace w1 @ xs" "\<forall>x\<in>set xs. \<not> is_grant (sent x)" by auto
    from getOauthToken_added[OF granted(2)] have t1: "trace w1 = trace w @ gs"
      by (simp add: gs_def)
    have ad: "added w w' = gs @ xs" by (rule added_append[OF t1 xs(1)])
    have "grants (added w w') = (if grant_request0 s \<noteq> None then 1 else 0)"
      using gn grants_none[OF xs(2)] by (simp add: ad grants_append)
    moreover have "\<forall>x\<in>set (added w w'). is_grant (sent x) \<longrightarrow>
               sent_at x = now w \<and> grant_request0 s = Some (sent x)"
      using g xs(2) by (auto simp: ad)
    ultimately show ?thesis using granted(1) by simp
  qed
  from both show "grants (added w w')
           = (if stale0 s w = Inr True \<and> grant_request0 s \<noteq> None then 1 else 0)" by blast
  from both show "\<forall>x\<in>set (added w w'). is_grant (sent x) \<longrightarrow>
           sent_at x = now w \<and> grant_request0 s = Some (sent x)" by blast
qed

lemma fetch0_no_expiry:
  "token0 s = Some t \<Longrightarrow> expiry0 t = None \<Longrightarrow>
   fetch0 fl srv inp opts s w = (Inl (TypeError ''Cannot read properties of undefined''), s, w)"
  by (simp add: fetch0_def stale0_def)

lemma RedditOauth_fetch_fresh:
  "\<not> token_stale s w \<Longrightarrow>
   RedditOauth_fetch srv inp opts s w =
     RedditAnon_fetch srv inp (bearer (access (token s)) opts) s w"
  by (simp add: RedditOauth_fetch_def)

lemma getNewToken_granted:
  fixes s :: "'s RedditOauth_scheme"
  assumes "getNewToken srv s w = (Inr (Body j), s1, w1)"
  shows "access (token s1) = access_of j" and "expiry (token s1) = Some (expiry_of j (now w1))"
  using assms
  by (auto simp: getNewToken_def emit_error_def setToken_def Let_def
      split: if_splits prod.splits reply.splits option.splits appType_t.splits)

lemma fetch0_fresh:
  assumes t: "token0 s = Some t" and e: "expiry0 t = Some (Fin e)" and n: "now w \<le> e"
    and f: "fetch0 fl srv inp opts s w = (r, s', w')"
  shows "token0 s' = Some t"
    and "map sent (added w w') = [\<lparr>req_url = url0 inp, req_init = bearer (accessToken t) opts\<rparr>]"
proof -
  have st: "stale0 s w = Inr False" using t e n by (simp add: stale0_def)
  with f have rq: "request0 fl srv inp opts s w = (r, s', w')" by (simp add: fetch0_def)
  show "token0 s' = Some t" using request0_added(2)[OF rq] t by simp
  from rq t
  show "map sent (added w w') = [\<lparr>req_url = url0 inp, req_init = bearer (accessToken t) opts\<rparr>]"
    by (auto simp: request0_def net_fetch_def added_def trace_wait0 Let_def
        split: prod.splits reply.splits if_splits)
qed

lemma RedditOauth_fetch_fresh_sends:
  fixes s :: "'s RedditOauth_scheme"
  assumes e: "expiry (token s) = Some (Fin e)" and n: "now w \<le> e"
    and f: "RedditOauth_fetch srv inp opts s w = (r, s', w')"
  shows "token s' = token s"
    and "map sent (added w w') = [api_request inp (bearer (access (token s)) opts) s]"
    and "map sent_at (added w w') = [now (rate_gate s w)]"
proof -
  have "\<not> token_stale s w" using e n by (simp add: token_stale_def)
  with f have a: "RedditAnon_fetch srv inp (bearer (access (token s)) opts) s w = (r, s', w')"
    by (simp add: RedditOauth_fetch_fresh)
  show "token s' = token s" using RedditAnon_fetch_more(1)[OF a] .
  show "map sent (added w w') = [api_request inp (bearer (access (token s)) opts) s]"
    using RedditAnon_fetch_added[OF a] by simp
  show "map sent_at (added w w') = [now (rate_gate s w)]"
    using RedditAnon_fetch_added[OF a] by simp
qed

lemma RedditOauth_fetch_granted_sends:
  fixes s :: "'s RedditOauth_scheme"
  assumes st: "token_stale s w"
    and g: "getNewToken srv s w = (Inr (Body (Token_body b)), s1, w1)"
    and f: "RedditOauth_fetch srv inp opts s w = (r, s', w')"
  shows "token s' = token s1"
    and "access (token s') = Some (access_token b)"
    and "expiry (token s') = Some (new_Date (now w1 + expires_in b * 1000))"
    and "sent (last (trace w')) = api_request inp (bearer (Some (access_token b)) opts) s1"
    and "sent_at (last (trace w')) = now (rate_gate s1 w1)"
    and "now w1 \<le> sent_at (last (trace w'))"
proof -
  from f have a: "RedditAnon_fetch srv inp (bearer (access (token s1)) opts) s1 w1 = (r, s', w')"
    by (simp add: RedditOauth_fetch_grant_returned[OF st g])
  have t: "token s' = token s1" using RedditAnon_fetch_more(1)[OF a] .
  have ac: "access (token s1) = Some (access_token b)"
    using getNewToken_granted(1)[OF g] by simp
  have ex: "expiry (token s1) = Some (new_Date (now w1 + expires_in b * 1000))"
    using getNewToken_granted(2)[OF g] by simp
  show "token s' = token s1" by (rule t)
  show "access (token s') = Some (access_token b)" using t ac by simp
  show "expiry (token s') = Some (new_Date (now w1 + expires_in b * 1000))" using t ex by simp
  show "sent (last (trace w')) = api_request inp (bearer (Some (access_token b)) opts) s1"
    using RedditAnon_fetch_trace[OF a] ac by simp
  have at: "sent_at (last (trace w')) = now (rate_gate s1 w1)"
    using RedditAnon_fetch_trace[OF a] by simp
  show "sent_at (last (trace w')) = now (rate_gate s1 w1)" by (rule at)
  show "now w1 \<le> sent_at (last (trace w'))"
    using now_rate_gate_ge[of w1 s1] at by simp
qed

text \<open>
  Claim C1, as the code has it. The token is tested once, at the call. A fetch of the
  authenticated session sends a grant request, at the time of the call, exactly when the
  token it holds has no expiry or the clock is strictly past the expiry, and the session
  has a grant to ask for: a script session a username and a password, a web session a
  refresh token. When the expiry is at or after the time of the call, no grant is made:
  the token stays, and the one request of the fetch carries it and is sent when the
  rate-limit gate lets it through, which is the time of the call when the budget is not 0.
  So the expiry of the token of the request is at or after the time of the call, and need
  not be strictly after the time of sending. After a grant that returned a token, the
  request carries the granted token, whose expiry is the date made of the arrival time of
  the grant's response plus the granted lifetime; the request is sent at or after that
  arrival, and with a positive lifetime, an expiry within the range of dates and a budget
  that is not 0 the expiry is strictly after the time of sending.

  The earlier client sends a grant request, at the time of the call, exactly when it
  holds no token or the clock is strictly past the expiry of its token, and the session
  has a grant to ask for; holding a token without expiry it throws a type error and sends
  nothing; with the expiry at or after the time of the call it makes no grant and sends
  the one request with the token it holds.
\<close>

theorem token_is_checked_at_the_call:
  fixes s :: "'s RedditOauth_scheme"
  shows "(RedditOauth_fetch srv inp opts s w = (r, s', w')
          \<longrightarrow> grants (added w w')
                = (if (expiry (token s) = None \<or> (\<exists>e. expiry (token s) = Some (Fin e) \<and> e < now w))
                      \<and> grant_request s \<noteq> None
                   then 1 else 0)
              \<and> (\<forall>x\<in>set (added w w'). is_grant (sent x) \<longrightarrow>
                    sent_at x = now w \<and> grant_request s = Some (sent x)))
       \<and> (expiry (token s) = Some (Fin e) \<and> now w \<le> e
            \<and> RedditOauth_fetch srv inp opts s w = (r, s', w')
          \<longrightarrow> token s' = token s
              \<and> map sent (added w w') = [api_request inp (bearer (access (token s)) opts) s]
              \<and> map sent_at (added w w') = [now (rate_gate s w)])
       \<and> (expiry (token s) = Some (Fin e) \<and> now w \<le> e
            \<and> reqRemaining (rateLimit s) \<noteq> Fin 0
            \<and> RedditOauth_fetch srv inp opts s w = (r, s', w')
          \<longrightarrow> map sent_at (added w w') = [now w])
       \<and> (token_stale s w \<and> getNewToken srv s w = (Inr (Body (Token_body b)), s1, w1)
            \<and> RedditOauth_fetch srv inp opts s w = (r, s', w')
          \<longrightarrow> token s' = token s1
              \<and> access (token s') = Some (access_token b)
              \<and> expiry (token s') = Some (new_Date (now w1 + expires_in b * 1000))
              \<and> sent (last (trace w')) = api_request inp (bearer (Some (access_token b)) opts) s1
              \<and> sent_at (last (trace w')) = now (rate_gate s1 w1)
              \<and> now w1 \<le> sent_at (last (trace w')))
       \<and> (token_stale s w \<and> getNewToken srv s w = (Inr (Body (Token_body b)), s1, w1)
            \<and> RedditOauth_fetch srv inp opts s w = (r, s', w')
            \<and> 0 < expires_in b \<and> \<bar>now w1 + expires_in b * 1000\<bar> \<le> 8640000000000000
            \<and> reqRemaining (rateLimit s) \<noteq> Fin 0
          \<longrightarrow> live_at (token s') (sent_at (last (trace w'))))
       \<and> (fetch0 fl srv inp opts s0 w = (r0, s0', w')
          \<longrightarrow> grants (added w w')
                = (if (token0 s0 = None
                       \<or> (\<exists>t e. token0 s0 = Some t \<and> expiry0 t = Some (Fin e) \<and> e < now w))
                      \<and> grant_request0 s0 \<noteq> None
                   then 1 else 0)
              \<and> (\<forall>x\<in>set (added w w'). is_grant (sent x) \<longrightarrow>
                    sent_at x = now w \<and> grant_request0 s0 = Some (sent x)))
       \<and> (token0 s0 = Some t0 \<and> expiry0 t0 = None
          \<longrightarrow> fetch0 fl srv inp opts s0 w
                = (Inl (TypeError ''Cannot read properties of undefined''), s0, w))
       \<and> (token0 s0 = Some t0 \<and> expiry0 t0 = Some (Fin e) \<and> now w \<le> e
            \<and> fetch0 fl srv inp opts s0 w = (r0, s0', w')
          \<longrightarrow> token0 s0' = Some t0
              \<and> map sent (added w w')
                  = [\<lparr>req_url = url0 inp, req_init = bearer (accessToken t0) opts\<rparr>])"
proof (intro conjI impI)
  assume f: "RedditOauth_fetch srv inp opts s w = (r, s', w')"
  show "grants (added w w')
          = (if (expiry (token s) = None \<or> (\<exists>e. expiry (token s) = Some (Fin e) \<and> e < now w))
                \<and> grant_request s \<noteq> None
             then 1 else 0)"
    using RedditOauth_fetch_grants(1)[OF f] unfolding token_stale_iff .
  show "\<forall>x\<in>set (added w w'). is_grant (sent x) \<longrightarrow>
          sent_at x = now w \<and> grant_request s = Some (sent x)"
    by (rule RedditOauth_fetch_grants(2)[OF f])
next
  assume a: "expiry (token s) = Some (Fin e) \<and> now w \<le> e
            \<and> RedditOauth_fetch srv inp opts s w = (r, s', w')"
  then show "token s' = token s"
    using RedditOauth_fetch_fresh_sends(1) by blast
  from a show "map sent (added w w') = [api_request inp (bearer (access (token s)) opts) s]"
    using RedditOauth_fetch_fresh_sends(2) by blast
  from a show "map sent_at (added w w') = [now (rate_gate s w)]"
    using RedditOauth_fetch_fresh_sends(3) by blast
next
  assume a: "expiry (token s) = Some (Fin e) \<and> now w \<le> e
            \<and> reqRemaining (rateLimit s) \<noteq> Fin 0
            \<and> RedditOauth_fetch srv inp opts s w = (r, s', w')"
  then have "map sent_at (added w w') = [now (rate_gate s w)]"
    using RedditOauth_fetch_fresh_sends(3) by blast
  with a show "map sent_at (added w w') = [now w]"
    by (simp add: now_rate_gate)
next
  assume a: "token_stale s w \<and> getNewToken srv s w = (Inr (Body (Token_body b)), s1, w1)
            \<and> RedditOauth_fetch srv inp opts s w = (r, s', w')"
  then show "token s' = token s1"
    using RedditOauth_fetch_granted_sends(1) by blast
  from a show "access (token s') = Some (access_token b)"
    using RedditOauth_fetch_granted_sends(2) by blast
  from a show "expiry (token s') = Some (new_Date (now w1 + expires_in b * 1000))"
    using RedditOauth_fetch_granted_sends(3) by blast
  from a show "sent (last (trace w')) = api_request inp (bearer (Some (access_token b)) opts) s1"
    using RedditOauth_fetch_granted_sends(4) by blast
  from a show "sent_at (last (trace w')) = now (rate_gate s1 w1)"
    using RedditOauth_fetch_granted_sends(5) by blast
  from a show "now w1 \<le> sent_at (last (trace w'))"
    using RedditOauth_fetch_granted_sends(6) by blast
next
  assume a: "token_stale s w \<and> getNewToken srv s w = (Inr (Body (Token_body b)), s1, w1)
            \<and> RedditOauth_fetch srv inp opts s w = (r, s', w')
            \<and> 0 < expires_in b \<and> \<bar>now w1 + expires_in b * 1000\<bar> \<le> 8640000000000000
            \<and> reqRemaining (rateLimit s) \<noteq> Fin 0"
  then have st: "token_stale s w"
    and g: "getNewToken srv s w = (Inr (Body (Token_body b)), s1, w1)"
    and f: "RedditOauth_fetch srv inp opts s w = (r, s', w')"
    by blast+
  note ex = RedditOauth_fetch_granted_sends(3)[OF st g f]
    and at = RedditOauth_fetch_granted_sends(5)[OF st g f]
  have "rateLimit s1 = rateLimit s" using getNewToken_trace(3)[OF g] .
  with a have "now (rate_gate s1 w1) = now w1" by (simp add: now_rate_gate)
  with a ex at show "live_at (token s') (sent_at (last (trace w')))"
    by (simp add: live_at_def new_Date_def)
next
  assume f: "fetch0 fl srv inp opts s0 w = (r0, s0', w')"
  show "grants (added w w')
          = (if (token0 s0 = None
                 \<or> (\<exists>t e. token0 s0 = Some t \<and> expiry0 t = Some (Fin e) \<and> e < now w))
                \<and> grant_request0 s0 \<noteq> None
             then 1 else 0)"
    using fetch0_grants(1)[OF f] unfolding stale0_iff .
  show "\<forall>x\<in>set (added w w'). is_grant (sent x) \<longrightarrow>
          sent_at x = now w \<and> grant_request0 s0 = Some (sent x)"
    by (rule fetch0_grants(2)[OF f])
next
  assume "token0 s0 = Some t0 \<and> expiry0 t0 = None"
  then show "fetch0 fl srv inp opts s0 w
               = (Inl (TypeError ''Cannot read properties of undefined''), s0, w)"
    using fetch0_no_expiry by blast
next
  assume a: "token0 s0 = Some t0 \<and> expiry0 t0 = Some (Fin e) \<and> now w \<le> e
            \<and> fetch0 fl srv inp opts s0 w = (r0, s0', w')"
  then show "token0 s0' = Some t0"
    using fetch0_fresh(1) by blast
  from a show "map sent (added w w')
                  = [\<lparr>req_url = url0 inp, req_init = bearer (accessToken t0) opts\<rparr>]"
    using fetch0_fresh(2) by blast
qed

text \<open>The web session whose token expires at 1000 ms fetches at 1000 ms: the test lets
  the token pass, and the request goes out at 1000 ms with it. Fetching at 2000 ms, it
  makes one grant request, is granted a token with the response at 2050 ms and sends its
  request then, with the new token, which expires an hour later. The earlier client with
  such a token makes one grant request at 2000 ms as well, and with a token that has no
  expiry it throws.\<close>

theorem token_is_checked_at_the_call_witness:
  "map sent_at (added w0 (snd (snd (RedditOauth_fetch (granting None) me no_init web0 w0)))) = [1000]
   \<and> token (fst (snd (RedditOauth_fetch (granting None) me no_init web0 w0))) = token web0
   \<and> grants (added w0 (snd (snd (RedditOauth_fetch (granting None) me no_init web0 w0)))) = 0
   \<and> grants (added w_late (snd (snd (RedditOauth_fetch (granting None) me no_init web0 w_late)))) = 1
   \<and> expiry (token (fst (snd (RedditOauth_fetch (granting None) me no_init web0 w_late))))
       = Some (Fin (2050 + 3600 * 1000))
   \<and> sent_at (last (trace (snd (snd (RedditOauth_fetch (granting None) me no_init web0 w_late))))) = 2050
   \<and> live_at (token (fst (snd (RedditOauth_fetch (granting None) me no_init web0 w_late))))
        (sent_at (last (trace (snd (snd (RedditOauth_fetch (granting None) me no_init web0 w_late))))))
   \<and> grants (added w_late (snd (snd (fetch0 exact_delay (granting None) me no_init web00 w_late)))) = 1
   \<and> fetch0 exact_delay (granting None) me no_init
        (setToken0 \<lparr>accessToken = Some ''a0'', refreshToken = None, expiry0 = None\<rparr> script00) w0
       = (Inl (TypeError ''Cannot read properties of undefined''),
          setToken0 \<lparr>accessToken = Some ''a0'', refreshToken = None, expiry0 = None\<rparr> script00, w0)"
proof -
  let ?f = "RedditOauth_fetch (granting None) me no_init web0 w0"
  let ?g = "getNewToken (granting None) web0 w_late"
  let ?h = "RedditOauth_fetch (granting None) me no_init web0 w_late"
  let ?l = "fetch0 exact_delay (granting None) me no_init web00 w_late"
  let ?t = "\<lparr>accessToken = Some ''a0'', refreshToken = None, expiry0 = None\<rparr>"
  have w: "expiry (token web0) = Some (Fin 1000)" "reqRemaining (rateLimit web0) \<noteq> Fin 0"
    by (simp_all add: web0_def web_init_def no_options_def new_RedditOauth_def new_RedditAnon_def)
  have gr: "grant_request web0 \<noteq> None"
    by (simp add: grant_request_def web0_def web_init_def no_options_def new_RedditOauth_def)
  have a: "expiry (token web0) = Some (Fin 1000) \<and> now w0 \<le> 1000
           \<and> ?f = (fst ?f, fst (snd ?f), snd (snd ?f))"
    using w by (simp add: w0_def)
  have a2: "expiry (token web0) = Some (Fin 1000) \<and> now w0 \<le> 1000
           \<and> reqRemaining (rateLimit web0) \<noteq> Fin 0
           \<and> ?f = (fst ?f, fst (snd ?f), snd (snd ?f))"
    using w by (simp add: w0_def)
  have "fst ?g = Inr (Body (Token_body (granted_body None)))" by code_simp
  then have g: "?g = (Inr (Body (Token_body (granted_body None))), fst (snd ?g), snd (snd ?g))"
    by (cases ?g) auto
  have st: "token_stale web0 w_late"
    using w by (simp add: token_stale_def w_late_def)
  have n: "now (snd (snd ?g)) = 2050" by code_simp
  have b: "token_stale web0 w_late \<and> ?g = (Inr (Body (Token_body (granted_body None))), fst (snd ?g), snd (snd ?g))
           \<and> ?h = (fst ?h, fst (snd ?h), snd (snd ?h))
           \<and> 0 < expires_in (granted_body None)
           \<and> \<bar>now (snd (snd ?g)) + expires_in (granted_body None) * 1000\<bar> \<le> 8640000000000000
           \<and> reqRemaining (rateLimit web0) \<noteq> Fin 0"
    using st g w n by (simp add: granted_body_def)
  then have b1: "token_stale web0 w_late \<and> ?g = (Inr (Body (Token_body (granted_body None))), fst (snd ?g), snd (snd ?g))
           \<and> ?h = (fst ?h, fst (snd ?h), snd (snd ?h))"
    by blast
  have at: "sent_at (last (trace (snd (snd ?h)))) = 2050" by code_simp
  note T = token_is_checked_at_the_call
  have "?f = (fst ?f, fst (snd ?f), snd (snd ?f))" by simp
  from T[THEN conjunct1, THEN mp, OF this]
  have c0: "grants (added w0 (snd (snd ?f))) = 0"
    using w by (simp add: w0_def)
  have "?h = (fst ?h, fst (snd ?h), snd (snd ?h))" by simp
  from T[THEN conjunct1, THEN mp, OF this]
  have c0': "grants (added w_late (snd (snd ?h))) = 1"
    using w gr by (simp add: w_late_def)
  from T[THEN conjunct2, THEN conjunct2, THEN conjunct1, THEN mp, OF a2]
  have c1: "map sent_at (added w0 (snd (snd ?f))) = [1000]"
    by (simp add: w0_def)
  from T[THEN conjunct2, THEN conjunct1, THEN mp, OF a]
  have c2: "token (fst (snd ?f)) = token web0"
    by blast
  from T[THEN conjunct2, THEN conjunct2, THEN conjunct2, THEN conjunct1, THEN mp, OF b1]
  have "expiry (token (fst (snd ?h)))
          = Some (new_Date (now (snd (snd ?g)) + expires_in (granted_body None) * 1000))"
    by blast
  then have c3: "expiry (token (fst (snd ?h))) = Some (Fin (2050 + 3600 * 1000))"
    by (simp add: n granted_body_def new_Date_def)
  from T[THEN conjunct2, THEN conjunct2, THEN conjunct2, THEN conjunct2, THEN conjunct1,
         THEN mp, OF b]
  have c5: "live_at (token (fst (snd ?h))) (sent_at (last (trace (snd (snd ?h)))))" .
  have l0: "token0 web00 = Some \<lparr>accessToken = Some ''a0'', refreshToken = Some ''r0'',
                                  expiry0 = Some (Fin 1000)\<rparr>"
           "grant_request0 web00 \<noteq> None"
    by (simp_all add: web00_def setToken0_def new_RedditOauth0_def grant_request0_def
          held_refreshToken_def)
  have "?l = (fst ?l, fst (snd ?l), snd (snd ?l))" by simp
  from T[THEN conjunct2, THEN conjunct2, THEN conjunct2, THEN conjunct2, THEN conjunct2,
         THEN conjunct1, THEN mp, OF this]
  have c6: "grants (added w_late (snd (snd ?l))) = 1"
    using l0 by (simp add: w_late_def)
  have "token0 (setToken0 ?t script00) = Some ?t \<and> expiry0 ?t = None"
    by (simp add: setToken0_def)
  from T[THEN conjunct2, THEN conjunct2, THEN conjunct2, THEN conjunct2, THEN conjunct2,
         THEN conjunct2, THEN conjunct1, THEN mp, OF this]
  have c7: "fetch0 exact_delay (granting None) me no_init (setToken0 ?t script00) w0
       = (Inl (TypeError ''Cannot read properties of undefined''), setToken0 ?t script00, w0)" .
  from c0 c0' c1 c2 c3 at c5 c6 c7 show ?thesis by blast
qed

text \<open>At 1000 ms the token of the request expires at 1000 ms: its expiry is not strictly
  after the time the request is sent.\<close>

theorem token_at_its_expiry_counterexample:
  "map sent_at (trace (snd (snd (RedditOauth_fetch (granting None) me no_init web0 w0)))) = [1000]
   \<and> map (\<lambda>x. map_of (headers (req_init (sent x))) ''Authorization'')
        (trace (snd (snd (RedditOauth_fetch (granting None) me no_init web0 w0))))
       = [Some (Plain ''bearer a0'')]
   \<and> token (fst (snd (RedditOauth_fetch (granting None) me no_init web0 w0)))
       = \<lparr>access = Some ''a0'', refresh = Some ''r0'', expiry = Some (Fin 1000), scopes = None\<rparr>
   \<and> \<not> live_at (token (fst (snd (RedditOauth_fetch (granting None) me no_init web0 w0)))) 1000"
  by code_simp

subsection \<open>Fetches called together\<close>

lemma token_stale_now: "now w' = now w \<Longrightarrow> token_stale s w' = token_stale s w"
  by (simp add: token_stale_def split: option.splits)

text \<open>A call that finds the token stale on a session that can ask for a grant sends the
  grant request and waits for its response; the session and the clock are as before.\<close>

lemma call_stale:
  assumes st: "token_stale s w" and rq: "grant_request s = Some rq"
  shows "call srv inp opts s w =
           (\<lparr>f_input = inp, f_options = opts,
             f_waiting = Grant_reply (fst (srv (trace w) (now w) rq))
                           (now w + int (snd (srv (trace w) (now w) rq)))\<rparr>,
            s,
            w\<lparr>trace := trace w @ [\<lparr>sent_at = now w, sent = rq,
                                    got = fst (srv (trace w) (now w) rq)\<rparr>]\<rparr>)"
proof -
  have g: "is_grant rq" using rq by (rule is_grant_grant_request)
  have sd: "send srv rq w =
          (Grant_reply (fst (srv (trace w) (now w) rq))
             (now w + int (snd (srv (trace w) (now w) rq))),
           w\<lparr>trace := trace w @ [\<lparr>sent_at = now w, sent = rq,
                                   got = fst (srv (trace w) (now w) rq)\<rparr>]\<rparr>)"
    using g by (simp add: send_def split: prod.splits)
  from rq obtain tp where tp: "appType s = Some tp"
    by (cases "appType s") (simp_all add: grant_request_def)
  show ?thesis
    using st rq tp sd by (cases tp) (simp_all add: call_def Let_def)
qed

lemma calling_all_stale:
  fixes l :: "('s RedditOauth_scheme, 'a) loop"
  assumes "token_stale (shared l) (outside l)" and "grant_request (shared l) = Some rq"
  shows "shared (calling_all srv cs l) = shared l
       \<and> now (outside (calling_all srv cs l)) = now (outside l)
       \<and> (\<exists>xs. trace (outside (calling_all srv cs l)) = trace (outside l) @ xs
              \<and> map sent xs = replicate (length cs) rq
              \<and> map sent_at xs = replicate (length cs) (now (outside l)))
       \<and> (\<exists>fs. flights (calling_all srv cs l) = flights l @ fs
              \<and> length fs = length cs \<and> list_all waits_for_grant fs)"
  using assms
proof (induction cs arbitrary: l)
  case Nil
  then show ?case by simp
next
  case (Cons c cs)
  let ?l1 = "calling srv (fst c) (snd c) l"
  let ?x = "\<lparr>sent_at = now (outside l), sent = rq,
             got = fst (srv (trace (outside l)) (now (outside l)) rq)\<rparr>"
  let ?f = "\<lparr>f_input = fst c, f_options = snd c,
             f_waiting = Grant_reply (fst (srv (trace (outside l)) (now (outside l)) rq))
               (now (outside l) + int (snd (srv (trace (outside l)) (now (outside l)) rq)))\<rparr>"
  have l1: "shared ?l1 = shared l" "now (outside ?l1) = now (outside l)"
    "trace (outside ?l1) = trace (outside l) @ [?x]" "flights ?l1 = flights l @ [?f]"
    using call_stale[OF Cons.prems, of srv "fst c" "snd c"] by (simp_all add: calling_def)
  have st: "token_stale (shared ?l1) (outside ?l1)"
    using Cons.prems(1) l1(1) token_stale_now[OF l1(2), of "shared l"] by simp
  have gr: "grant_request (shared ?l1) = Some rq"
    using Cons.prems(2) l1(1) by simp
  from Cons.IH[OF st gr] obtain xs fs where
    ih: "shared (calling_all srv cs ?l1) = shared ?l1"
      "now (outside (calling_all srv cs ?l1)) = now (outside ?l1)"
      "trace (outside (calling_all srv cs ?l1)) = trace (outside ?l1) @ xs"
      "map sent xs = replicate (length cs) rq"
      "map sent_at xs = replicate (length cs) (now (outside ?l1))"
      "flights (calling_all srv cs ?l1) = flights ?l1 @ fs"
      "length fs = length cs" "list_all waits_for_grant fs"
    by blast
  have wf: "waits_for_grant ?f" by (simp add: waits_for_grant_def)
  have step: "calling_all srv (c # cs) l = calling_all srv cs ?l1" by simp
  have a: "trace (outside (calling_all srv cs ?l1)) = trace (outside l) @ (?x # xs)"
    using ih(3) l1(3) by simp
  have b: "flights (calling_all srv cs ?l1) = flights l @ (?f # fs)"
    using ih(6) l1(4) by simp
  have c: "map sent (?x # xs) = replicate (length (c # cs)) rq"
    using ih(4) by simp
  have d: "map sent_at (?x # xs) = replicate (length (c # cs)) (now (outside l))"
    using ih(5) l1(2) by simp
  have e: "length (?f # fs) = length (c # cs)" using ih(7) by simp
  have f: "list_all waits_for_grant (?f # fs)" using ih(8) wf by simp
  have t1: "\<exists>xs. trace (outside (calling_all srv cs ?l1)) = trace (outside l) @ xs
              \<and> map sent xs = replicate (length (c # cs)) rq
              \<and> map sent_at xs = replicate (length (c # cs)) (now (outside l))"
    using a c d by blast
  have t2: "\<exists>fs. flights (calling_all srv cs ?l1) = flights l @ fs
              \<and> length fs = length (c # cs) \<and> list_all waits_for_grant fs"
    using b e f by blast
  have t3: "shared (calling_all srv cs ?l1) = shared l"
    using ih(1) l1(1) by simp
  have t4: "now (outside (calling_all srv cs ?l1)) = now (outside l)"
    using ih(2) l1(2) by simp
  show ?case
    unfolding step using t1 t2 t3 t4 by blast
qed

lemma grants_all:
  "map sent xs = replicate n rq \<Longrightarrow> is_grant rq \<Longrightarrow> grants xs = n"
proof (induction xs arbitrary: n)
  case Nil
  then show ?case by (simp add: grants_def)
next
  case (Cons x xs)
  then obtain m where n: "n = Suc m" by (cases n) auto
  with Cons.prems have "sent x = rq" "map sent xs = replicate m rq" by auto
  with Cons.IH[of m] Cons.prems(2) n show ?case by (simp add: grants_def)
qed

text \<open>
  Claim C8, as the code has it. A session does not share the acquisition of a token among
  its fetches. A fetch that finds the token without expiry or expired, on a session that
  can ask for a grant, sends its own grant request at the call and leaves the session as
  it is; so of fetches called together every one sends that request, all at the time of
  the calls, and all the grants are in flight together: as many grant requests as
  fetches. Ten fetches called together against the web session with an expired token, and
  a server that grants and answers, make ten grant requests, and all ten succeed, both
  when each fetch is resumed as it falls due and when all ten are resumed in rounds.
\<close>

theorem every_call_sends_its_own_grant:
  fixes s :: "'s RedditOauth_scheme"
  shows "(token_stale s w \<and> grant_request s = Some rq \<longrightarrow>
            shared (calling_all srv cs \<lparr>shared = s, outside = w, flights = []\<rparr>) = s
            \<and> now (outside (calling_all srv cs \<lparr>shared = s, outside = w, flights = []\<rparr>)) = now w
            \<and> map sent (added w (outside (calling_all srv cs \<lparr>shared = s, outside = w, flights = []\<rparr>)))
                = replicate (length cs) rq
            \<and> map sent_at (added w (outside (calling_all srv cs \<lparr>shared = s, outside = w, flights = []\<rparr>)))
                = replicate (length cs) (now w)
            \<and> grants (added w (outside (calling_all srv cs \<lparr>shared = s, outside = w, flights = []\<rparr>)))
                = length cs
            \<and> length (flights (calling_all srv cs \<lparr>shared = s, outside = w, flights = []\<rparr>))
                = length cs
            \<and> list_all waits_for_grant
                 (flights (calling_all srv cs \<lparr>shared = s, outside = w, flights = []\<rparr>)))
       \<and> token_stale web0 w_late
       \<and> length ten_calls = 10
       \<and> grants (trace (outside (run_loop (granting None)
            (calling_all (granting None) ten_calls (idle web0 w_late))))) = 10
       \<and> length (flights (run_loop (granting None)
            (calling_all (granting None) ten_calls (idle web0 w_late)))) = 10
       \<and> list_all succeeded (flights (run_loop (granting None)
            (calling_all (granting None) ten_calls (idle web0 w_late))))
       \<and> grants (trace (outside (resumed_in (granting None) (in_rounds 10)
            (calling_all (granting None) ten_calls (idle web0 w_late))))) = 10
       \<and> list_all succeeded (flights (resumed_in (granting None) (in_rounds 10)
            (calling_all (granting None) ten_calls (idle web0 w_late))))"
proof (intro conjI impI)
  let ?l = "\<lparr>shared = s, outside = w, flights = []\<rparr> :: ('s RedditOauth_scheme, 'a) loop"
  assume a: "token_stale s w \<and> grant_request s = Some rq"
  then have st: "token_stale (shared ?l) (outside ?l)" and gr: "grant_request (shared ?l) = Some rq"
    by simp_all
  from calling_all_stale[OF st gr, of srv cs] obtain xs fs where
    r: "shared (calling_all srv cs ?l) = s" "now (outside (calling_all srv cs ?l)) = now w"
       "trace (outside (calling_all srv cs ?l)) = trace w @ xs"
       "map sent xs = replicate (length cs) rq"
       "map sent_at xs = replicate (length cs) (now w)"
       "flights (calling_all srv cs ?l) = fs" "length fs = length cs"
       "list_all waits_for_grant fs"
    by auto
  have ad: "added w (outside (calling_all srv cs ?l)) = xs"
    using r(3) by (simp add: added_def)
  show "shared (calling_all srv cs ?l) = s" by (rule r(1))
  show "now (outside (calling_all srv cs ?l)) = now w" by (rule r(2))
  show "map sent (added w (outside (calling_all srv cs ?l))) = replicate (length cs) rq"
    using r(4) ad by simp
  show "map sent_at (added w (outside (calling_all srv cs ?l))) = replicate (length cs) (now w)"
    using r(5) ad by simp
  show "grants (added w (outside (calling_all srv cs ?l))) = length cs"
    using grants_all[OF r(4)] is_grant_grant_request[of s rq] a ad by simp
  show "length (flights (calling_all srv cs ?l)) = length cs"
    using r(6,7) by simp
  show "list_all waits_for_grant (flights (calling_all srv cs ?l))"
    using r(6,8) by simp
next
  show "token_stale web0 w_late" by code_simp
next
  show "length ten_calls = 10" by (simp add: ten_calls_def)
next
  show "grants (trace (outside (run_loop (granting None)
            (calling_all (granting None) ten_calls (idle web0 w_late))))) = 10"
    by code_simp
next
  show "length (flights (run_loop (granting None)
            (calling_all (granting None) ten_calls (idle web0 w_late)))) = 10"
    by code_simp
next
  show "list_all succeeded (flights (run_loop (granting None)
            (calling_all (granting None) ten_calls (idle web0 w_late))))"
    by code_simp
next
  show "grants (trace (outside (resumed_in (granting None) (in_rounds 10)
            (calling_all (granting None) ten_calls (idle web0 w_late))))) = 10"
    by code_simp
next
  show "list_all succeeded (flights (resumed_in (granting None) (in_rounds 10)
            (calling_all (granting None) ten_calls (idle web0 w_late))))"
    by code_simp
qed

text \<open>Three fetches of the script session, called together at 1000 ms: three password
  grants are sent at 1000 ms.\<close>

theorem every_call_sends_its_own_grant_witness:
  "map sent_at (added w0 (outside (calling_all (granting None) (replicate 3 (me, no_init))
      \<lparr>shared = script0, outside = w0, flights = []\<rparr>))) = [1000, 1000, 1000]
   \<and> grants (added w0 (outside (calling_all (granting None) (replicate 3 (me, no_init))
      \<lparr>shared = script0, outside = w0, flights = []\<rparr>))) = 3
   \<and> list_all waits_for_grant (flights (calling_all (granting None) (replicate 3 (me, no_init))
      \<lparr>shared = script0, outside = w0, flights = []\<rparr>))"
proof -
  let ?rq = "token_request ''id:secret''
               [(''grant_type'', ''password''), (''username'', ''user''), (''password'', ''pw'')]"
  have a: "token_stale script0 w0 \<and> grant_request script0 = Some ?rq"
    by (simp add: token_stale_def grant_request_def script0_def script_init_def no_options_def
          new_RedditOauth_def)
  from every_call_sends_its_own_grant[THEN conjunct1, THEN mp, OF a,
         of "granting None" "replicate 3 (me, no_init)"]
  show ?thesis by (simp add: w0_def numeral_3_eq_3)
qed

text \<open>Ten fetches called together against the session with the expired token: after the
  calls ten grants are in flight, and when all is settled ten grant requests have been
  made, not one.\<close>

theorem ten_grants_counterexample:
  "token_stale web0 w_late
   \<and> length (filter waits_for_grant
        (flights (calling_all (granting None) ten_calls (idle web0 w_late)))) = 10
   \<and> grants (trace (outside (calling_all (granting None) ten_calls (idle web0 w_late)))) = 10
   \<and> grants (trace (outside (run_loop (granting None)
        (calling_all (granting None) ten_calls (idle web0 w_late))))) \<noteq> 1"
  by code_simp

subsection \<open>One fetch in flight\<close>

lemma receive_is_the_tail:
  "RedditAnon_fetch srv inp opts s w =
     (case net_fetch srv (api_request inp opts s) (rate_gate s w) of
        (rp, w2) \<Rightarrow> (fst (receive rp s), snd (receive rp s), w2))"
  by (auto simp: RedditAnon_fetch_def receive_def Let_def
      split: prod.splits reply.splits sum.splits json.splits if_splits)

lemma turn_single:
  "turn srv \<lparr>shared = s, outside = w, flights = [f]\<rparr> =
     (case due (f_waiting f) of
        None \<Rightarrow> \<lparr>shared = s, outside = w, flights = [f]\<rparr>
      | Some t \<Rightarrow>
          (case resume srv f s w of
             (f', s', w') \<Rightarrow> \<lparr>shared = s', outside = w', flights = [f']\<rparr>))"
  by (auto simp: turn_def resume_at_def split: option.splits prod.splits)

lemma turns_settled:
  "f_waiting f = Settled r \<Longrightarrow>
   turns n srv \<lparr>shared = s, outside = w, flights = [f]\<rparr> = \<lparr>shared = s, outside = w, flights = [f]\<rparr>"
  by (induction n) (simp_all add: turn_single)

lemma rate_gate_as_clock: "w\<lparr>now := max (now w) (now (rate_gate s w))\<rparr> = rate_gate s w"
proof -
  have "now w \<le> now (rate_gate s w)" by (rule now_rate_gate_ge)
  moreover have "w\<lparr>now := now (rate_gate s w)\<rparr> = rate_gate s w"
    by (cases "js_sub (resetMs (rateLimit s)) (Fin (now w))") (auto simp: rate_gate_def)
  ultimately show ?thesis by (simp add: max_def)
qed

lemma send_api:
  assumes "\<not> is_grant rq" and "net_fetch srv rq w = (rp, w2)"
  shows "send srv rq w = (Api_reply rp (now w2), w2\<lparr>now := now w\<rparr>)"
  using assms by (auto simp: send_def net_fetch_def split: prod.splits)

lemma send_grant:
  assumes "is_grant rq" and "net_fetch srv rq w = (rp, w2)"
  shows "send srv rq w = (Grant_reply rp (now w2), w2\<lparr>now := now w\<rparr>)"
  using assms by (auto simp: send_def net_fetch_def split: prod.splits)

lemma turns_add: "turns (m + n) srv l = turns n srv (turns m srv l)"
  by (induction m arbitrary: l) simp_all

text \<open>\<open>getNewToken\<close> is its part before the grant, the exchange, and its part after.\<close>

lemma getNewToken_with_grant:
  fixes s :: "'s RedditOauth_scheme"
  assumes "grant_request s = Some rq" and "net_fetch srv rq w = (rp, w1)"
  shows "getNewToken srv s w = (g, s1, w2) \<Longrightarrow>
           w2 = w1 \<and> after_grant rp (now w1) s = (map_sum id (\<lambda>x. ()) g, s1)"
  using assms
  by (auto simp: getNewToken_def grant_request_def after_grant_def emit_error_def Let_def
      split: option.splits appType_t.splits if_splits reply.splits)

lemma getNewToken_without_grant:
  fixes s :: "'s RedditOauth_scheme"
  assumes "grant_request s = None" and "getNewToken srv s w = (g, s1, w1)"
  shows "w1 = w"
    and "appType s = None \<Longrightarrow> s1 = s \<and> g = Inr Nothing"
    and "appType s = Some Web \<Longrightarrow>
           (case emit (ErrorEvent (Error ''Access token expired; excpected a refresh token.'')) s of
              Inl e \<Rightarrow> g = Inl e \<and> s1 = s
            | Inr s2 \<Rightarrow> g = Inr (Emitted True) \<and> s1 = s2)"
    and "appType s = Some Script \<Longrightarrow>
           g = Inl (Error ''Username and password are required for script apps'') \<and> s1 = s"
  using assms
  by (auto simp: getNewToken_def grant_request_def emit_error_def Let_def
      split: option.splits appType_t.splits if_splits)

text \<open>From the gate on, a fetch alone in flight does what \<open>RedditAnon.fetch\<close> does.\<close>

lemma proceed_then_two_turns:
  fixes s :: "'s RedditOauth_scheme"
  assumes a: "RedditAnon_fetch srv (f_input f) (bearer (access (token s)) (f_options f)) s w
                = (r, s', w')"
    and p: "proceed srv f s w = (f1, s1, w1)"
  shows "turns 2 srv \<lparr>shared = s1, outside = w1, flights = [f1]\<rparr>
           = \<lparr>shared = s', outside = w',
              flights = [f\<lparr>f_options := bearer (access (token s)) (f_options f),
                          f_waiting := Settled r\<rparr>]\<rparr>"
proof -
  let ?o = "bearer (access (token s)) (f_options f)"
  let ?rq = "api_request (f_input f) ?o s"
  let ?g = "f\<lparr>f_options := ?o\<rparr>"
  obtain rp w2 where nf: "net_fetch srv ?rq (rate_gate s w) = (rp, w2)"
    by (cases "net_fetch srv ?rq (rate_gate s w)") auto
  have r: "r = fst (receive rp s)" "s' = snd (receive rp s)" "w' = w2"
    using a nf by (simp_all add: receive_is_the_tail)
  have ng: "\<not> is_grant ?rq" by (rule not_is_grant_api_request)
  have sd: "send srv ?rq (rate_gate s w) = (Api_reply rp (now w2), w2\<lparr>now := now (rate_gate s w)\<rparr>)"
    by (rule send_api[OF ng nf])
  have ge: "now (rate_gate s w) \<le> now w2"
    using net_fetch_result(2)[OF nf] .
  have rewind: "(w2\<lparr>now := now (rate_gate s w)\<rparr>)\<lparr>now := max (now (rate_gate s w)) (now w2)\<rparr> = w2"
    using ge by (simp add: max_def)
  have two: "turns 2 srv l = turn srv (turn srv l)" for l :: "('s RedditOauth_scheme, 'a) loop"
    by (simp add: numeral_2_eq_2)
  have last: "turn srv \<lparr>shared = s, outside = w2\<lparr>now := now (rate_gate s w)\<rparr>,
                  flights = [?g\<lparr>f_waiting := Api_reply rp (now w2)\<rparr>]\<rparr>
              = \<lparr>shared = s', outside = w', flights = [?g\<lparr>f_waiting := Settled r\<rparr>]\<rparr>"
    using r rewind by (simp add: turn_single resume_def Let_def split: prod.splits)
  have still: "turn srv \<lparr>shared = s', outside = w', flights = [?g\<lparr>f_waiting := Settled r\<rparr>]\<rparr>
              = \<lparr>shared = s', outside = w', flights = [?g\<lparr>f_waiting := Settled r\<rparr>]\<rparr>"
    by (simp add: turn_single)
  show ?thesis
  proof (cases "reqRemaining (rateLimit s) = Fin 0")
    case True
    then have p1: "f1 = ?g\<lparr>f_waiting := Timer (now (rate_gate s w))\<rparr>" "s1 = s" "w1 = w"
      using p by (auto simp: proceed_def enter_gate_def Let_def)
    have first: "turn srv \<lparr>shared = s1, outside = w1, flights = [f1]\<rparr>
              = \<lparr>shared = s, outside = w2\<lparr>now := now (rate_gate s w)\<rparr>,
                 flights = [?g\<lparr>f_waiting := Api_reply rp (now w2)\<rparr>]\<rparr>"
      using sd by (simp add: p1 turn_single resume_def Let_def rate_gate_as_clock)
    show ?thesis by (simp only: two first last)
  next
    case False
    then have g: "rate_gate s w = w" by (simp add: rate_gate_def)
    have p1: "f1 = ?g\<lparr>f_waiting := Api_reply rp (now w2)\<rparr>" "s1 = s"
      "w1 = w2\<lparr>now := now (rate_gate s w)\<rparr>"
      using p False sd g by (auto simp: proceed_def enter_gate_def Let_def)
    show ?thesis by (simp only: two p1 last still)
  qed
qed

text \<open>From its continuation after \<open>getNewToken\<close> on likewise.\<close>

lemma returned_then_three_turns:
  fixes s :: "'s RedditOauth_scheme"
  assumes a: "RedditAnon_fetch srv (f_input f) (bearer (access (token s)) (f_options f)) s w
                = (r, s', w')"
  shows "turns 3 srv \<lparr>shared = s, outside = w,
                       flights = [f\<lparr>f_waiting := Token_returned (now w)\<rparr>]\<rparr>
           = \<lparr>shared = s', outside = w',
              flights = [f\<lparr>f_options := bearer (access (token s)) (f_options f),
                          f_waiting := Settled r\<rparr>]\<rparr>"
proof -
  let ?f1 = "f\<lparr>f_waiting := Token_returned (now w)\<rparr>"
  obtain f2 s2 w2 where p: "proceed srv ?f1 s w = (f2, s2, w2)"
    by (cases "proceed srv ?f1 s w") auto
  have same: "w\<lparr>now := max (now w) (now w)\<rparr> = w" by simp
  have t1: "turn srv \<lparr>shared = s, outside = w, flights = [?f1]\<rparr>
              = \<lparr>shared = s2, outside = w2, flights = [f2]\<rparr>"
    using p by (simp add: turn_single resume_def same)
  have a': "RedditAnon_fetch srv (f_input ?f1) (bearer (access (token s)) (f_options ?f1)) s w
                = (r, s', w')"
    using a by simp
  from proceed_then_two_turns[OF a' p]
  have t2: "turns 2 srv \<lparr>shared = s2, outside = w2, flights = [f2]\<rparr>
           = \<lparr>shared = s', outside = w',
              flights = [f\<lparr>f_options := bearer (access (token s)) (f_options f),
                          f_waiting := Settled r\<rparr>]\<rparr>"
    by simp
  have "turns 3 srv l = turns 2 srv (turn srv l)" for l :: "('s RedditOauth_scheme, 'a) loop"
    by (simp add: numeral_3_eq_3 numeral_2_eq_2)
  then show ?thesis by (simp only: t1 t2)
qed

text \<open>
  A fetch that is alone in flight, called and then resumed until it is settled, leaves the
  session and the world as \<open>RedditOauth.fetch\<close> does, and is settled with its outcome.
\<close>

lemma one_flight_is_fetch:
  fixes s :: "'s RedditOauth_scheme"
  assumes f: "RedditOauth_fetch srv inp opts s w = (r, s', w')"
  shows "shared (run_loop srv (calling srv inp opts \<lparr>shared = s, outside = w, flights = []\<rparr>)) = s'
       \<and> outside (run_loop srv (calling srv inp opts \<lparr>shared = s, outside = w, flights = []\<rparr>)) = w'
       \<and> map f_waiting
           (flights (run_loop srv (calling srv inp opts \<lparr>shared = s, outside = w, flights = []\<rparr>)))
           = [Settled r]"
proof -
  let ?f0 = "\<lparr>f_input = inp, f_options = opts, f_waiting = Timer (now w)\<rparr>"
  obtain f1 s1 w1 where c: "call srv inp opts s w = (f1, s1, w1)"
    by (cases "call srv inp opts s w") auto
  have run: "run_loop srv (calling srv inp opts \<lparr>shared = s, outside = w, flights = []\<rparr>)
               = turns 4 srv \<lparr>shared = s1, outside = w1, flights = [f1]\<rparr>"
    using c by (simp add: run_loop_def calling_def)
  have four: "turns 4 srv l = turns 2 srv (turns 2 srv l)"
             "turns 4 srv l = turns 1 srv (turns 3 srv l)"
             "turns 4 srv l = turns 3 srv (turn srv l)"
    for l :: "('s RedditOauth_scheme, 'a) loop"
    using turns_add[of 2 2 srv l] turns_add[of 3 1 srv l] turns_add[of 1 3 srv l]
    by simp_all
  have goal_if: "?thesis"
    if "turns 4 srv \<lparr>shared = s1, outside = w1, flights = [f1]\<rparr>
          = \<lparr>shared = s', outside = w', flights = [g]\<rparr>" and "f_waiting g = Settled r" for g
    using that run by simp
  text \<open>From a call of \<open>proceed\<close> on.\<close>
  have from_proceed: "?thesis"
    if a: "RedditAnon_fetch srv inp (bearer (access (token s)) opts) s w = (r, s', w')"
      and p: "call srv inp opts s w = proceed srv ?f0 s w"
  proof -
    have p': "proceed srv ?f0 s w = (f1, s1, w1)" using p c by simp
    from proceed_then_two_turns[of srv ?f0 s w r s' w' f1 s1 w1] a p'
    have t2: "turns 2 srv \<lparr>shared = s1, outside = w1, flights = [f1]\<rparr>
           = \<lparr>shared = s', outside = w',
              flights = [?f0\<lparr>f_options := bearer (access (token s)) opts,
                            f_waiting := Settled r\<rparr>]\<rparr>"
      by simp
    show ?thesis
      by (rule goal_if[of "?f0\<lparr>f_options := bearer (access (token s)) opts,
                            f_waiting := Settled r\<rparr>"])
         (simp_all add: four(1) t2 turns_settled)
  qed
  text \<open>From a \<open>getNewToken\<close> that returned without a wait on.\<close>
  have from_returned: "?thesis"
    if a: "RedditAnon_fetch srv inp (bearer (access (token s2)) opts) s2 w = (r, s', w')"
      and p: "call srv inp opts s w = returned ?f0 s2 w" for s2
  proof -
    have c1: "f1 = ?f0\<lparr>f_waiting := Token_returned (now w)\<rparr>" "s1 = s2" "w1 = w"
      using p c by (simp_all add: returned_def)
    from returned_then_three_turns[of srv ?f0 s2 w r s' w'] a
    have t3: "turns 3 srv \<lparr>shared = s1, outside = w1, flights = [f1]\<rparr>
           = \<lparr>shared = s', outside = w',
              flights = [?f0\<lparr>f_options := bearer (access (token s2)) opts,
                            f_waiting := Settled r\<rparr>]\<rparr>"
      by (simp add: c1)
    show ?thesis
      by (rule goal_if[of "?f0\<lparr>f_options := bearer (access (token s2)) opts,
                            f_waiting := Settled r\<rparr>"])
         (simp_all add: four(2) t3 turn_single)
  qed
  text \<open>From a grant in flight on.\<close>
  have from_grant: "?thesis"
    if rq: "grant_request s = Some rq" and st: "token_stale s w"
      and g: "getNewToken srv s w = (q, s2, w2)"
      and tail: "case q of Inl e \<Rightarrow> r = Inl e \<and> s' = s2 \<and> w' = w2
                 | Inr x \<Rightarrow> RedditAnon_fetch srv inp (bearer (access (token s2)) opts) s2 w2
                            = (r, s', w')"
    for rq q s2 w2
  proof -
    obtain rp w3 where nf: "net_fetch srv rq w = (rp, w3)"
      by (cases "net_fetch srv rq w") auto
    from getNewToken_with_grant[OF rq nf g]
    have w2: "w2 = w3" and ag: "after_grant rp (now w3) s = (map_sum id (\<lambda>x. ()) q, s2)"
      by simp_all
    have ig: "is_grant rq" using rq by (rule is_grant_grant_request)
    from rq obtain tp where tp: "appType s = Some tp"
      by (cases "appType s") (simp_all add: grant_request_def)
    have c1: "f1 = ?f0\<lparr>f_waiting := Grant_reply rp (now w3)\<rparr>" "s1 = s" "w1 = w3\<lparr>now := now w\<rparr>"
      using c st rq tp send_grant[OF ig nf]
      by (cases tp; simp add: call_def Let_def)+
    have mx: "max (now w) (now w3) = now w3"
      using net_fetch_result(2)[OF nf] by (simp add: max_def)
    have rewind: "(w3\<lparr>now := now w\<rparr>)\<lparr>now := now w3\<rparr> = w3"
      by simp
    show ?thesis
    proof (cases q)
      case (Inl e)
      with tail have r: "r = Inl e" "s' = s2" "w' = w2" by simp_all
      have "turn srv \<lparr>shared = s1, outside = w1, flights = [f1]\<rparr>
              = \<lparr>shared = s', outside = w', flights = [?f0\<lparr>f_waiting := Settled r\<rparr>]\<rparr>"
        using ag Inl r w2 rewind
        by (simp add: c1 turn_single resume_def settle_def Let_def mx)
      then show ?thesis
        by (intro goal_if[of "?f0\<lparr>f_waiting := Settled r\<rparr>"])
           (simp_all add: four(3) turns_settled)
    next
      case (Inr x)
      with tail have a: "RedditAnon_fetch srv inp (bearer (access (token s2)) opts) s2 w3
                            = (r, s', w')" using w2 by simp
      have t1: "turn srv \<lparr>shared = s1, outside = w1, flights = [f1]\<rparr>
              = \<lparr>shared = s2, outside = w3,
                 flights = [?f0\<lparr>f_waiting := Token_returned (now w3)\<rparr>]\<rparr>"
        using ag Inr rewind
        by (simp add: c1 turn_single resume_def returned_def Let_def mx)
      from returned_then_three_turns[of srv ?f0 s2 w3 r s' w'] a
      have t3: "turns 3 srv \<lparr>shared = s2, outside = w3,
                              flights = [?f0\<lparr>f_waiting := Token_returned (now w3)\<rparr>]\<rparr>
           = \<lparr>shared = s', outside = w',
              flights = [?f0\<lparr>f_options := bearer (access (token s2)) opts,
                            f_waiting := Settled r\<rparr>]\<rparr>"
        by simp
      show ?thesis
      proof (rule goal_if[of "?f0\<lparr>f_options := bearer (access (token s2)) opts,
                            f_waiting := Settled r\<rparr>"])
        show "turns 4 srv \<lparr>shared = s1, outside = w1, flights = [f1]\<rparr>
                = \<lparr>shared = s', outside = w',
                   flights = [?f0\<lparr>f_options := bearer (access (token s2)) opts,
                                 f_waiting := Settled r\<rparr>]\<rparr>"
          by (simp only: four(3) t1 t3)
        show "f_waiting (?f0\<lparr>f_options := bearer (access (token s2)) opts,
                            f_waiting := Settled r\<rparr>) = Settled r"
          by simp
      qed
    qed
  qed
  text \<open>A call that is settled at once.\<close>
  have from_settle: "?thesis"
    if "call srv inp opts s w = settle e ?f0 s w" and "r = Inl e" and "s' = s" and "w' = w" for e
    using that c
    by (intro goal_if[of "?f0\<lparr>f_waiting := Settled r\<rparr>"])
       (auto simp: settle_def turns_settled)
  from f show ?thesis
  proof (cases rule: RedditOauth_fetch_cases)
    case fresh
    show ?thesis
      by (rule from_proceed[OF fresh(2)]) (simp add: call_def fresh(1) Let_def)
  next
    case (threw e)
    show ?thesis
    proof (cases "grant_request s")
      case (Some rq)
      show ?thesis
        by (rule from_grant[OF Some threw(1) threw(2)]) (simp add: threw(3))
    next
      case None
      note ng = getNewToken_without_grant[OF None threw(2)]
      show ?thesis
      proof (cases "appType s")
        case None
        with ng(2) show ?thesis by simp
      next
        case (Some tp)
        show ?thesis
        proof (cases tp)
          case Web
          with ng(1,3) Some \<open>grant_request s = None\<close> threw(1,3) show ?thesis
            by (intro from_settle[of e])
               (auto simp: call_def Let_def split: sum.splits)
        next
          case Script
          with ng(1,4) Some \<open>grant_request s = None\<close> threw(1,3) show ?thesis
            by (intro from_settle[of e]) (auto simp: call_def Let_def)
        qed
      qed
    qed
  next
    case (granted g s2 w2)
    show ?thesis
    proof (cases "grant_request s")
      case (Some rq)
      show ?thesis
        by (rule from_grant[OF Some granted(1) granted(2)]) (simp add: granted(3))
    next
      case None
      note ng = getNewToken_without_grant[OF None granted(2)]
      show ?thesis
      proof (cases "appType s")
        case None
        with ng(1,2) granted(1,3) show ?thesis
          by (intro from_returned[of s]) (auto simp: call_def Let_def)
      next
        case (Some tp)
        show ?thesis
        proof (cases tp)
          case Web
          with ng(1,3) Some \<open>grant_request s = None\<close> granted(1,3) show ?thesis
            by (intro from_returned[of s2])
               (auto simp: call_def Let_def split: sum.splits)
        next
          case Script
          with ng(4) Some show ?thesis by simp
        qed
      qed
    qed
  qed
qed

end
